theory Spec2Isabelle
  imports Complex_Main "HOL-Library.Sublist"
begin

section \<open>Data model\<close>

text \<open>
  The dashboard works on three pandas frames. A frame is modelled by its column labels
  and its rows, each row a list of cells in the order of the labels. A cell is missing
  (NaN), a finite number, an infinity (\<open>Infty True\<close> is the positive one), or a string.
  A finite number is the rational value of a float or of a 64-bit integer, as a numeric
  column holds them; a number written in a text column is a string. Where the library
  rounds or depends on the platform (parsing a string, the mean of two numbers, the cast
  of a number outside the 64-bit range) its result is a parameter of the model, see
  \<open>numerics\<close> below. Column labels are strings of characters with code points below
  256; the type has no other characters.
\<close>

datatype cell = NaN | Num rat | Infty bool | Str string

record dataframe =
  columns :: "string list"
  rows :: "cell list list"

datatype error =
  KeyError | TypeError | ValueError | IntCastingNaNError | AttributeError | OverflowError

section \<open>Column normalization (dashboard.py, lines 35-63)\<close>

text \<open>
  \<open>str.lower\<close> on code points below 256: the letters A-Z and the letters from U+00C0 to
  U+00DE, except the multiplication sign U+00D7, move up by 32; every other character
  stays.
\<close>

definition lower_char :: "char \<Rightarrow> char" where
  "lower_char c =
     (if (65 \<le> (of_char c :: nat) \<and> (of_char c :: nat) \<le> 90) \<or>
         (192 \<le> (of_char c :: nat) \<and> (of_char c :: nat) \<le> 222 \<and> (of_char c :: nat) \<noteq> 215)
      then char_of ((of_char c :: nat) + 32) else c)"

definition lower :: "string \<Rightarrow> string" where
  "lower s = map lower_char s"

text \<open>
  The characters \<open>str.strip()\<close> removes from both ends: those below 256 for which
  \<open>str.isspace\<close> holds (tab, line feed, vertical tab, form feed, carriage return, the
  four separators 28-31, the space, the next-line character U+0085 and the no-break
  space U+00A0).
\<close>

definition is_space :: "char \<Rightarrow> bool" where
  "is_space c = ((of_char c :: nat) \<in> {9, 10, 11, 12, 13, 28, 29, 30, 31, 32, 133, 160})"

definition strip :: "string \<Rightarrow> string" where
  "strip s = rev (dropWhile is_space (rev (dropWhile is_space s)))"

text \<open>\<open>str.replace\<close> with a one-character pattern and a one-character replacement.\<close>

definition replace_char :: "char \<Rightarrow> char \<Rightarrow> string \<Rightarrow> string" where
  "replace_char a b s = map (\<lambda>c. if c = a then b else c) s"

text \<open>The body of the loop of \<open>normalize_columns\<close>: the new label of one column.\<close>

definition norm_name :: "string \<Rightarrow> string" where
  "norm_name c =
     (if c = ''metadata'' then c
      else replace_char (CHR 0x09) CHR ''_''
             (replace_char (CHR 0x0A) CHR ''_''
               (replace_char CHR '' '' CHR ''_'' (strip (lower c)))))"

definition normalize_columns :: "dataframe \<Rightarrow> dataframe" where
  "normalize_columns df = df\<lparr>columns := map norm_name (columns df)\<rparr>"

text \<open>
  \<open>df.rename(columns={old: new}, inplace=True)\<close> under the guard of lines 57 and 62:
  \<open>old\<close> is a label and \<open>new\<close> is not. Every column labelled \<open>old\<close> is renamed.
\<close>

definition rename_if_absent :: "string \<Rightarrow> string \<Rightarrow> dataframe \<Rightarrow> dataframe" where
  "rename_if_absent old new df =
     (if old \<in> set (columns df) \<and> new \<notin> set (columns df)
      then df\<lparr>columns := map (\<lambda>c. if c = old then new else c) (columns df)\<rparr>
      else df)"

text \<open>Lines 51-63 for one frame: the loop body, then the two rename rules in order.\<close>

definition schema_normalize :: "dataframe \<Rightarrow> dataframe" where
  "schema_normalize df =
     rename_if_absent ''duration_'' ''duration''
       (rename_if_absent ''meta_data'' ''metadata'' (normalize_columns df))"

section \<open>Frame operations\<close>

text \<open>
  \<open>cell_of cols c r\<close> is the cell of row \<open>r\<close> under label \<open>c\<close>; \<open>get_col df c\<close> is the
  series \<open>df[c]\<close>. Both are used under a guard \<open>c in df.columns\<close>, as in the source, and
  read the first column with the label. For a label that occurs twice pandas gives a
  frame instead of a series: \<open>repeated\<close> tests for that, and \<open>pd.to_numeric\<close> and
  \<open>between\<close>, which then raise, raise in the model before the column is read. The labels
  \<open>title\<close>, \<open>genre\<close> and \<open>cast\<close> are taken to occur at most once.
\<close>

definition cell_of :: "string list \<Rightarrow> string \<Rightarrow> cell list \<Rightarrow> cell" where
  "cell_of cols c r = (case map_of (zip cols r) c of Some v \<Rightarrow> v | None \<Rightarrow> NaN)"

definition get_col :: "dataframe \<Rightarrow> string \<Rightarrow> cell list" where
  "get_col df c = map (cell_of (columns df) c) (rows df)"

definition repeated :: "dataframe \<Rightarrow> string \<Rightarrow> bool" where
  "repeated df c = (1 < count_list (columns df) c)"

definition col_index :: "string list \<Rightarrow> string \<Rightarrow> nat" where
  "col_index cols c = length (takeWhile (\<lambda>x. x \<noteq> c) cols)"

text \<open>
  \<open>df[c] = series\<close>: an existing column is overwritten in place, a new label is appended
  as the last column.
\<close>

definition assign_col :: "string \<Rightarrow> cell list \<Rightarrow> dataframe \<Rightarrow> dataframe" where
  "assign_col c vs df =
     (if c \<in> set (columns df)
      then df\<lparr>rows := map (\<lambda>(r, v). r[col_index (columns df) c := v]) (zip (rows df) vs)\<rparr>
      else df\<lparr>columns := columns df @ [c],
              rows := map (\<lambda>(r, v). r @ [v]) (zip (rows df) vs)\<rparr>)"

text \<open>\<open>df[mask]\<close>: the rows whose mask entry is true, in their order.\<close>

definition select_rows :: "(cell list \<Rightarrow> bool) \<Rightarrow> dataframe \<Rightarrow> dataframe" where
  "select_rows p df = df\<lparr>rows := filter p (rows df)\<rparr>"

text \<open>\<open>df[[a, b]]\<close>: the two named columns, in that order.\<close>

definition project2 :: "string \<Rightarrow> string \<Rightarrow> dataframe \<Rightarrow> dataframe" where
  "project2 a b df =
     df\<lparr>columns := [a, b],
        rows := map (\<lambda>r. [cell_of (columns df) a r, cell_of (columns df) b r]) (rows df)\<rparr>"

text \<open>\<open>df.drop(columns=cs)\<close> and \<open>df.rename(columns={old: new})\<close>.\<close>

definition drop_cols :: "string list \<Rightarrow> dataframe \<Rightarrow> dataframe" where
  "drop_cols cs df =
     df\<lparr>columns := filter (\<lambda>c. c \<notin> set cs) (columns df),
        rows := map (\<lambda>r. map snd (filter (\<lambda>(c, v). c \<notin> set cs) (zip (columns df) r))) (rows df)\<rparr>"

definition rename_col :: "string \<Rightarrow> string \<Rightarrow> dataframe \<Rightarrow> dataframe" where
  "rename_col old new df = df\<lparr>columns := map (\<lambda>c. if c = old then new else c) (columns df)\<rparr>"

text \<open>\<open>Series.unique()\<close>: the distinct values in order of first appearance.\<close>

fun unique_from :: "'a list \<Rightarrow> 'a list \<Rightarrow> 'a list" where
  "unique_from seen [] = []"
| "unique_from seen (x # xs) =
     (if x \<in> set seen then unique_from seen xs else x # unique_from (x # seen) xs)"

definition unique :: "'a list \<Rightarrow> 'a list" where
  "unique xs = unique_from [] xs"

section \<open>Numeric coercion and imputation (lines 68-86)\<close>

text \<open>
  What the numeric library computes with rounding or by the platform's rules:
  \<^item> \<open>parse\<close>: what \<open>pd.to_numeric\<close> makes of a string, a finite number (the float or integer
    the string denotes), an infinity, or nothing;
  \<^item> \<open>avg x y\<close>: the mean of two finite numbers as a float, or nothing when the sum
    overflows to an infinity;
  \<^item> \<open>overflowed x\<close>: the integer that the cast to \<open>int64\<close> gives for a number whose integer
    part does not fit into 64 bits.
\<close>

datatype parsed = Finite rat | Infinite bool | NotNumeric

record numerics =
  parse :: "string \<Rightarrow> parsed"
  avg :: "rat \<Rightarrow> rat \<Rightarrow> rat option"
  overflowed :: "rat \<Rightarrow> int"

text \<open>
  \<open>pd.to_numeric(series, errors="coerce")\<close>, cell by cell: a string becomes what it
  parses to, and a missing cell when it does not parse; a number, which is a value of a
  numeric type already, stays as it is.
\<close>

definition to_numeric :: "numerics \<Rightarrow> cell \<Rightarrow> cell" where
  "to_numeric nm v =
     (case v of
        Str s \<Rightarrow> (case parse nm s of
                    Finite x \<Rightarrow> Num x | Infinite b \<Rightarrow> Infty b | NotNumeric \<Rightarrow> NaN)
      | _ \<Rightarrow> v)"

text \<open>
  \<open>coerce_numeric\<close>, lines 68-72. \<open>pd.to_numeric\<close> raises TypeError when \<open>df[c]\<close> is a frame,
  which it is for a repeated label.
\<close>

fun coerce_numeric :: "numerics \<Rightarrow> dataframe \<Rightarrow> string list \<Rightarrow> error + dataframe" where
  "coerce_numeric nm df [] = Inr df"
| "coerce_numeric nm df (c # cs) =
     (if c \<in> set (columns df)
      then (if repeated df c then Inl TypeError
            else coerce_numeric nm (assign_col c (map (to_numeric nm) (get_col df c)) df) cs)
      else coerce_numeric nm df cs)"

text \<open>The finite numbers of a series.\<close>

fun nums :: "cell list \<Rightarrow> rat list" where
  "nums [] = []"
| "nums (Num x # vs) = x # nums vs"
| "nums (v # vs) = nums vs"

text \<open>
  The non-missing values of a numeric series in ascending order: the negative
  infinities, the finite numbers, the positive infinities.
\<close>

definition sorted_values :: "cell list \<Rightarrow> cell list" where
  "sorted_values vs =
     replicate (count_list vs (Infty False)) (Infty False) @ map Num (sort (nums vs))
       @ replicate (count_list vs (Infty True)) (Infty True)"

text \<open>
  The mean of the two middle values: of two finite numbers it is \<open>avg\<close>, or the infinity
  their sum overflows to; an infinity and a finite number, or two infinities of one
  sign, give that infinity; two infinities of opposite sign give NaN.
\<close>

definition mean2 :: "numerics \<Rightarrow> cell \<Rightarrow> cell \<Rightarrow> cell" where
  "mean2 nm a b =
     (case a of
        Num x \<Rightarrow> (case b of
                    Num y \<Rightarrow> (case avg nm x y of Some m \<Rightarrow> Num m | None \<Rightarrow> Infty (0 < x + y))
                  | Infty t \<Rightarrow> Infty t
                  | _ \<Rightarrow> NaN)
      | Infty s \<Rightarrow> (case b of
                      Num y \<Rightarrow> Infty s
                    | Infty t \<Rightarrow> (if s = t then Infty s else NaN)
                    | _ \<Rightarrow> NaN)
      | _ \<Rightarrow> NaN)"

text \<open>
  \<open>Series.median()\<close>: the middle of the sorted non-missing values, the mean of the two
  middle ones when their number is even, NaN when there is none.
\<close>

definition median :: "numerics \<Rightarrow> cell list \<Rightarrow> cell" where
  "median nm vs =
     (let xs = sorted_values vs; n = length xs
      in if n = 0 then NaN
         else if odd n then xs ! (n div 2)
         else mean2 nm (xs ! (n div 2 - 1)) (xs ! (n div 2)))"

definition fillna :: "cell \<Rightarrow> cell list \<Rightarrow> cell list" where
  "fillna v vs = map (\<lambda>x. if x = NaN then v else x) vs"

text \<open>
  Conversion of a finite number to an integer truncates toward zero. The cast to \<open>int64\<close>,
  which \<open>astype(int)\<close> is where the platform's integer has 64 bits, gives the truncated
  value when it fits into 64 bits.
\<close>

definition trunc :: "rat \<Rightarrow> int" where
  "trunc x = (if 0 \<le> x then \<lfloor>x\<rfloor> else \<lceil>x\<rceil>)"

definition to_int64 :: "numerics \<Rightarrow> rat \<Rightarrow> int" where
  "to_int64 nm x =
     (if - (2 ^ 63) \<le> trunc x \<and> trunc x < 2 ^ 63 then trunc x else overflowed nm x)"

text \<open>
  \<open>Series.astype(int)\<close>: a missing cell or an infinity cannot be converted, which raises
  IntCastingNaNError.
\<close>

fun astype_int :: "numerics \<Rightarrow> cell list \<Rightarrow> error + cell list" where
  "astype_int nm [] = Inr []"
| "astype_int nm (NaN # vs) = Inl IntCastingNaNError"
| "astype_int nm (Infty b # vs) = Inl IntCastingNaNError"
| "astype_int nm (Str s # vs) = Inl ValueError"
| "astype_int nm (Num x # vs) =
     (case astype_int nm vs of
        Inl e \<Rightarrow> Inl e
      | Inr ws \<Rightarrow> Inr (Num (of_int (to_int64 nm x)) # ws))"

text \<open>\<open>df[c] = df[c].fillna(df[c].median()).astype(int)\<close> (lines 79 and 81).\<close>

definition impute_int :: "numerics \<Rightarrow> string \<Rightarrow> dataframe \<Rightarrow> error + dataframe" where
  "impute_int nm c df =
     (case astype_int nm (fillna (median nm (get_col df c)) (get_col df c)) of
        Inl e \<Rightarrow> Inl e
      | Inr vs \<Rightarrow> Inr (assign_col c vs df))"

text \<open>
  \<open>impute_and_cast\<close>, lines 74-82. Line 86 calls it on the frame \<open>coerce_numeric\<close> has
  returned, in which none of the three labels is repeated: each \<open>df[c]\<close> is a series.
\<close>

definition impute_and_cast :: "numerics \<Rightarrow> dataframe \<Rightarrow> error + dataframe" where
  "impute_and_cast nm df =
     (let df1 = (if ''metadata'' \<in> set (columns df)
                 then assign_col ''metadata''
                        (fillna (median nm (get_col df ''metadata'')) (get_col df ''metadata'')) df
                 else df)
      in case (if ''duration'' \<in> set (columns df1) then impute_int nm ''duration'' df1
               else Inr df1) of
           Inl e \<Rightarrow> Inl e
         | Inr df2 \<Rightarrow> (if ''year'' \<in> set (columns df2) then impute_int nm ''year'' df2
                       else Inr df2))"

text \<open>The body of the loop of lines 84-86, for one frame.\<close>

definition prepare :: "numerics \<Rightarrow> dataframe \<Rightarrow> error + dataframe" where
  "prepare nm df =
     (case coerce_numeric nm df [''metadata'', ''duration'', ''year''] of
        Inl e \<Rightarrow> Inl e
      | Inr df0 \<Rightarrow> impute_and_cast nm df0)"

section \<open>Sidebar: default ranges and the filter engine (lines 101-142)\<close>

text \<open>
  \<open>Series.min()\<close>, \<open>Series.max()\<close>, \<open>np.nanmin\<close> and \<open>np.nanmax\<close> skip missing cells; with no
  value left the result is NaN (numpy raises ValueError on an empty series, which is the
  error \<open>int\<close> raises on NaN as well). An infinity is a value like any other.
\<close>

definition col_min :: "cell list \<Rightarrow> cell" where
  "col_min vs =
     (if Infty False \<in> set vs then Infty False
      else (case nums vs of
              [] \<Rightarrow> (if Infty True \<in> set vs then Infty True else NaN)
            | x # xs \<Rightarrow> Num (fold min xs x)))"

definition col_max :: "cell list \<Rightarrow> cell" where
  "col_max vs =
     (if Infty True \<in> set vs then Infty True
      else (case nums vs of
              [] \<Rightarrow> (if Infty False \<in> set vs then Infty False else NaN)
            | x # xs \<Rightarrow> Num (fold max xs x)))"

text \<open>
  Python's \<open>int(x)\<close> on a float: truncation to an unbounded integer, ValueError on NaN,
  OverflowError on an infinity.
\<close>

definition py_int :: "cell \<Rightarrow> error + int" where
  "py_int v =
     (case v of
        Num x \<Rightarrow> Inr (trunc x)
      | NaN \<Rightarrow> Inl ValueError
      | Infty b \<Rightarrow> Inl OverflowError
      | Str s \<Rightarrow> Inl ValueError)"

text \<open>
  The cells under a label, row by row: for a label that occurs once the column, for a
  repeated label the cells of the frame \<open>df[c]\<close>.
\<close>

definition cells_under :: "dataframe \<Rightarrow> string \<Rightarrow> cell list" where
  "cells_under df c =
     concat (map (\<lambda>r. map snd (filter (\<lambda>(l, v). l = c) (zip (columns df) r))) (rows df))"

text \<open>
  The bounds of a slider, which are also its default selection (line 107 and line 115
  pass \<open>(min, max)\<close> as the value).
\<close>

definition bounds :: "cell list \<Rightarrow> error + int \<times> int" where
  "bounds vs =
     (case py_int (col_min vs) of
        Inl e \<Rightarrow> Inl e
      | Inr lo \<Rightarrow> (case py_int (col_max vs) of
                    Inl e \<Rightarrow> Inl e
                  | Inr hi \<Rightarrow> Inr (lo, hi)))"

text \<open>
  Lines 102-106, \<open>int(df_clean["year"].min())\<close>: for a repeated label \<open>min()\<close> of the frame
  is a series, which \<open>int\<close> refuses with TypeError.
\<close>

definition default_year_range :: "dataframe \<Rightarrow> error + int \<times> int" where
  "default_year_range df_clean =
     (if ''year'' \<in> set (columns df_clean)
      then (if repeated df_clean ''year'' then Inl TypeError
            else bounds (get_col df_clean ''year''))
      else Inr (1900, 2025))"

text \<open>
  Lines 110-114, \<open>int(np.nanmin(df_clean["metadata"]))\<close>: numpy reduces over all the cells
  it is given, those of every column with the label.
\<close>

definition default_meta_range :: "dataframe \<Rightarrow> error + int \<times> int" where
  "default_meta_range df_clean =
     (if ''metadata'' \<in> set (columns df_clean)
      then bounds (cells_under df_clean ''metadata'')
      else Inr (0, 100))"

text \<open>The state of the four sidebar widgets.\<close>

record config =
  year_range :: "int \<times> int"
  meta_range :: "int \<times> int"
  genre_filter :: "cell list"
  cast_filter :: "cell list"

text \<open>
  \<open>Series.between(lo, hi)\<close>, inclusive on both sides; a missing cell compares false, and
  so does an infinity on one of the two sides. A string cell cannot be compared with an
  integer: pandas raises TypeError. After \<open>coerce_numeric\<close> the two columns hold no
  string.
\<close>

definition between :: "int \<Rightarrow> int \<Rightarrow> cell \<Rightarrow> bool" where
  "between lo hi v = (case v of Num x \<Rightarrow> of_int lo \<le> x \<and> x \<le> of_int hi | _ \<Rightarrow> False)"

fun is_str :: "cell \<Rightarrow> bool" where
  "is_str (Str s) = True"
| "is_str v = False"

text \<open>
  Lines 122-123 and 124-125: one range filter, skipped when the column is absent. A
  frame, which \<open>df[c]\<close> is for a repeated label, has no \<open>between\<close>: AttributeError.
\<close>

definition filter_between :: "string \<Rightarrow> int \<times> int \<Rightarrow> dataframe \<Rightarrow> error + dataframe" where
  "filter_between c rng df =
     (if c \<in> set (columns df)
      then (if repeated df c then Inl AttributeError
            else if list_ex is_str (get_col df c) then Inl TypeError
            else Inr (select_rows (\<lambda>r. between (fst rng) (snd rng) (cell_of (columns df) c r)) df))
      else Inr df)"

text \<open>Line 118.\<close>

definition title_col :: "dataframe \<Rightarrow> string option" where
  "title_col df_clean = (if ''title'' \<in> set (columns df_clean) then Some ''title'' else None)"

text \<open>
  Lines 128-130 and 133-135: one membership filter through an exploded frame \<open>ex\<close> with
  attribute column \<open>attr\<close>. The guard tests the selection, \<open>title_col\<close> and the attribute
  column; \<open>ex[...][title_col]\<close> then raises KeyError when \<open>ex\<close> has no title column.
\<close>

definition filter_member ::
  "cell list \<Rightarrow> string \<Rightarrow> dataframe \<Rightarrow> string option \<Rightarrow> dataframe \<Rightarrow> error + dataframe" where
  "filter_member sel attr ex tc df =
     (case tc of
        None \<Rightarrow> Inr df
      | Some t \<Rightarrow>
          if sel \<noteq> [] \<and> attr \<in> set (columns ex)
          then (if t \<in> set (columns ex)
                then (let titles = unique (get_col
                            (select_rows (\<lambda>r. cell_of (columns ex) attr r \<in> set sel) ex) t)
                      in Inr (select_rows (\<lambda>r. cell_of (columns df) t r \<in> set titles) df))
                else Inl KeyError)
          else Inr df)"

definition and_then :: "error + 'a \<Rightarrow> ('a \<Rightarrow> error + 'b) \<Rightarrow> error + 'b" where
  "and_then m f = (case m of Inl e \<Rightarrow> Inl e | Inr x \<Rightarrow> f x)"

text \<open>Lines 121-135: \<open>df_filtered\<close>, from a copy of \<open>df_clean\<close>.\<close>

definition filter_engine ::
  "dataframe \<Rightarrow> dataframe \<Rightarrow> dataframe \<Rightarrow> config \<Rightarrow> error + dataframe" where
  "filter_engine df_clean df_cast df_genre cfg =
     and_then (filter_between ''year'' (year_range cfg) df_clean) (\<lambda>d1.
     and_then (filter_between ''metadata'' (meta_range cfg) d1) (\<lambda>d2.
     and_then (filter_member (genre_filter cfg) ''genre'' df_genre (title_col df_clean) d2) (\<lambda>d3.
     filter_member (cast_filter cfg) ''cast'' df_cast (title_col df_clean) d3)))"

section \<open>Attaching the year to an exploded frame (lines 256-278, 320-332, 373-386)\<close>

text \<open>
  \<open>left.merge(df_clean[[t, "year"]], on=t, how="left")\<close>. Every left row is kept, in order:
  once for each right row with the same title, in the order of the right rows, or once
  with a missing year when no right row matches. The right frame has the two columns
  \<open>t\<close> and \<open>year\<close>, so the only label the two sides can share besides the key is \<open>year\<close>;
  pandas then names the left one \<open>year_x\<close> and the right one \<open>year_y\<close>.
\<close>

definition merge_year :: "string \<Rightarrow> dataframe \<Rightarrow> dataframe \<Rightarrow> dataframe" where
  "merge_year t left right =
     \<lparr>columns =
        (if ''year'' \<in> set (columns left)
         then map (\<lambda>c. if c = ''year'' then ''year_x'' else c) (columns left) @ [''year_y'']
         else columns left @ [''year'']),
      rows = concat (map (\<lambda>l.
        (let ms = filter (\<lambda>r. cell_of (columns right) t r = cell_of (columns left) t l)
                    (rows right)
         in if ms = [] then [l @ [NaN]]
            else map (\<lambda>r. l @ [cell_of (columns right) ''year'' r]) ms)) (rows left))\<rparr>"

text \<open>\<open>a.fillna(b)\<close> for two series of one frame.\<close>

definition coalesce :: "cell list \<Rightarrow> cell list \<Rightarrow> cell list" where
  "coalesce ys xs = map (\<lambda>(y, x). if y = NaN then x else y) (zip ys xs)"

text \<open>
  The chain that follows each merge (lines 268-275, 323-329 and 377-383 are the same
  statements on \<open>df_year_genre\<close>, \<open>df_year_cast\<close> and \<open>df_year_genre\<close>).
\<close>

definition unify_year :: "dataframe \<Rightarrow> dataframe" where
  "unify_year df =
     (if ''year_x'' \<in> set (columns df) \<and> ''year_y'' \<in> set (columns df)
      then drop_cols [''year_x'', ''year_y'']
             (assign_col ''year'' (coalesce (get_col df ''year_y'') (get_col df ''year_x'')) df)
      else if ''year_x'' \<in> set (columns df) then rename_col ''year_x'' ''year'' df
      else if ''year_y'' \<in> set (columns df) then rename_col ''year_y'' ''year'' df
      else df)"

text \<open>\<open>df.dropna(subset=[c])\<close>; an unknown label raises KeyError.\<close>

definition dropna_subset :: "string \<Rightarrow> dataframe \<Rightarrow> error + dataframe" where
  "dropna_subset c df =
     (if c \<in> set (columns df)
      then Inr (select_rows (\<lambda>r. cell_of (columns df) c r \<noteq> NaN) df)
      else Inl KeyError)"

text \<open>
  The index of \<open>Series.value_counts()\<close> (the distinct values, most frequent first) is a
  parameter \<open>vc\<close> of the tabs: pandas does not fix the order of values with equal counts.
  \<open>top n vc s\<close> is \<open>s.value_counts().head(n).index\<close>.
\<close>

definition top :: "nat \<Rightarrow> (cell list \<Rightarrow> cell list) \<Rightarrow> cell list \<Rightarrow> cell list" where
  "top n vc s = take n (vc s)"

text \<open>
  \<open>ex[ex[t].isin(df_filtered[t])]\<close>: the rows of an exploded frame whose title is a title
  of the filtered movie frame (lines 228 and 295).
\<close>

definition titles_in :: "string \<Rightarrow> dataframe \<Rightarrow> dataframe \<Rightarrow> dataframe" where
  "titles_in t df_filtered ex =
     select_rows (\<lambda>r. cell_of (columns ex) t r \<in> set (get_col df_filtered t)) ex"

definition isin_rows :: "string \<Rightarrow> cell list \<Rightarrow> dataframe \<Rightarrow> dataframe" where
  "isin_rows c vals df = select_rows (\<lambda>r. cell_of (columns df) c r \<in> set vals) df"

text \<open>
  \<open>px.bar(counts, x=counts.values, y=counts.index, ...)\<close> on the value counts of a series
  (lines 185, 207, 232 and 299): plotly raises ValueError when the counts are empty, which
  they are when the series has no non-missing value. An exception ends the run of the
  script. The other chart calls receive a frame and the names of its columns; they are
  taken to return.
\<close>

definition has_values :: "cell list \<Rightarrow> bool" where
  "has_values s = list_ex (\<lambda>v. v \<noteq> NaN) s"

definition px_bar_counts :: "cell list \<Rightarrow> error + unit" where
  "px_bar_counts s = (if has_values s then Inr () else Inl ValueError)"

text \<open>
  Genre tab, lines 227-280: the frame that \<open>pivot_table\<close> receives on line 280, or nothing
  when a guard skips the heatmap, or the error of the bar chart of line 232.
  \<open>df_year_genre\<close> is bound on line 256 and bound again on line 261.
\<close>

definition genre_tab_year_genre ::
  "(cell list \<Rightarrow> cell list) \<Rightarrow> dataframe \<Rightarrow> dataframe \<Rightarrow> dataframe \<Rightarrow> error + dataframe option" where
  "genre_tab_year_genre vc df_clean df_genre df_filtered =
     (case title_col df_clean of
        None \<Rightarrow> Inr None
      | Some t \<Rightarrow>
          if ''genre'' \<in> set (columns df_genre) \<and> t \<in> set (columns df_genre)
             \<and> t \<in> set (columns df_filtered)
          then (let dfg = titles_in t df_filtered df_genre
                in and_then (px_bar_counts (get_col dfg ''genre'')) (\<lambda>u.
                   (let top_genres = top 12 vc (get_col dfg ''genre'');
                        dfg_top = isin_rows ''genre'' top_genres dfg
                    in if ''year'' \<in> set (columns df_clean)
                       then (let df_year_genre =
                                   (if t \<in> set (columns df_clean)
                                    then merge_year t dfg_top (project2 t ''year'' df_clean)
                                    else dfg_top);
                                 df_year_genre =
                                   merge_year t df_genre (project2 t ''year'' df_clean);
                                 df_year_genre = unify_year df_year_genre
                             in and_then (dropna_subset ''year'' df_year_genre)
                                  (\<lambda>d. Inr (Some d)))
                       else Inr None)))
          else Inr None)"

text \<open>
  Cast tab, lines 294-333: the frame that \<open>groupby(["year", "cast"])\<close> receives on line
  333, or nothing, or the error of the bar chart of line 299.
\<close>

definition cast_tab_year_cast ::
  "(cell list \<Rightarrow> cell list) \<Rightarrow> dataframe \<Rightarrow> dataframe \<Rightarrow> dataframe \<Rightarrow> error + dataframe option" where
  "cast_tab_year_cast vc df_clean df_cast df_filtered =
     (case title_col df_clean of
        None \<Rightarrow> Inr None
      | Some t \<Rightarrow>
          if ''cast'' \<in> set (columns df_cast) \<and> t \<in> set (columns df_cast)
             \<and> t \<in> set (columns df_filtered)
          then (let dfc = titles_in t df_filtered df_cast
                in and_then (px_bar_counts (get_col dfc ''cast'')) (\<lambda>u.
                   (let top_actors = top 15 vc (get_col dfc ''cast'');
                        dfc_top = isin_rows ''cast'' top_actors dfc
                    in if ''year'' \<in> set (columns df_clean)
                       then (let df_year_cast =
                                   merge_year t dfc_top (project2 t ''year'' df_clean);
                                 df_year_cast = unify_year df_year_cast
                             in if ''year'' \<in> set (columns df_year_cast)
                                then and_then (dropna_subset ''year'' df_year_cast)
                                       (\<lambda>d. Inr (Some d))
                                else Inr None)
                       else Inr None)))
          else Inr None)"

text \<open>
  Yearly-trends tab, lines 350-387: the frame that \<open>pivot_table\<close> receives on line 387, or
  nothing.
\<close>

definition yearly_tab_year_genre ::
  "dataframe \<Rightarrow> dataframe \<Rightarrow> dataframe \<Rightarrow> dataframe option" where
  "yearly_tab_year_genre df_clean df_genre df_filtered =
     (if ''year'' \<in> set (columns df_filtered)
      then (case title_col df_clean of
              None \<Rightarrow> None
            | Some t \<Rightarrow>
                if ''genre'' \<in> set (columns df_genre) \<and> t \<in> set (columns df_genre)
                   \<and> t \<in> set (columns df_clean)
                then (let df_year_genre = merge_year t df_genre (project2 t ''year'' df_clean);
                          df_year_genre = unify_year df_year_genre
                      in if ''year'' \<in> set (columns df_year_genre)
                         then (case dropna_subset ''year'' df_year_genre of
                                 Inl e \<Rightarrow> None | Inr d \<Rightarrow> Some d)
                         else None)
                else None)
      else None)"

section \<open>The script as a state transformer (lines 121-455)\<close>

text \<open>
  The variables of the script that the properties below are about: the three base
  frames, the filtered frame, the four frames a tab assigns columns of in place
  (\<open>g_counts_df\<close>, \<open>c_counts_df\<close>, \<open>df_year_genre\<close>, \<open>df_year_cast\<close>), and the bytes handed to
  the two download buttons. \<open>to_csv\<close> stands for \<open>df.to_csv(index=False).encode("utf-8")\<close>,
  the CSV writer of pandas. A frame returned by a mask, a merge or \<open>reset_index\<close> is a new
  object, so an assignment to its columns changes the variable it is bound to and no
  other. The remaining names the tabs bind (counts, figures, the correlation matrix)
  are read and never assigned to.
\<close>

record app =
  df_clean :: dataframe
  df_cast :: dataframe
  df_genre :: dataframe
  df_filtered :: dataframe
  csv_bytes :: string
  g_counts_df :: "dataframe option"
  c_counts_df :: "dataframe option"
  df_year_genre :: "dataframe option"
  df_year_cast :: "dataframe option"
  table_csv :: "string option"

text \<open>Lines 121-142: the filters and the sidebar download.\<close>

definition sidebar :: "(dataframe \<Rightarrow> string) \<Rightarrow> config \<Rightarrow> app \<Rightarrow> error + app" where
  "sidebar to_csv cfg s =
     and_then (filter_engine (df_clean s) (df_cast s) (df_genre s) cfg)
       (\<lambda>d. Inr (s\<lparr>df_filtered := d, csv_bytes := to_csv d\<rparr>))"

text \<open>
  \<open>s.value_counts().head(n).reset_index()\<close> with its columns set to \<open>[label, "count"]\<close>
  (lines 189-190 and 210-211): one row per value, with the number of its occurrences.
\<close>

definition counts_frame :: "nat \<Rightarrow> (cell list \<Rightarrow> cell list) \<Rightarrow> string \<Rightarrow> cell list \<Rightarrow> dataframe" where
  "counts_frame n vc label s =
     \<lparr>columns = [label, ''count''],
      rows = map (\<lambda>v. [v, Num (of_nat (count_list s v))]) (top n vc s)\<rparr>"

text \<open>
  Overview tab, lines 180-219: the two frames behind the pie charts; each is built after
  the bar chart of the same counts (lines 185 and 207) has been drawn.
\<close>

definition overview_tab :: "(cell list \<Rightarrow> cell list) \<Rightarrow> app \<Rightarrow> error + app" where
  "overview_tab vc s =
     (case title_col (df_clean s) of
        None \<Rightarrow> Inr s
      | Some t \<Rightarrow>
          and_then
            (if ''genre'' \<in> set (columns (df_genre s)) \<and> t \<in> set (columns (df_genre s))
                \<and> t \<in> set (columns (df_filtered s))
             then (let g = get_col (titles_in t (df_filtered s) (df_genre s)) ''genre''
                   in and_then (px_bar_counts g)
                        (\<lambda>u. Inr (s\<lparr>g_counts_df := Some (counts_frame 15 vc ''genre'' g)\<rparr>)))
             else Inr s)
            (\<lambda>s1.
               if ''cast'' \<in> set (columns (df_cast s1)) \<and> t \<in> set (columns (df_cast s1))
                  \<and> t \<in> set (columns (df_filtered s1))
               then (let c = get_col (titles_in t (df_filtered s1) (df_cast s1)) ''cast''
                     in and_then (px_bar_counts c)
                          (\<lambda>u. Inr (s1\<lparr>c_counts_df := Some (counts_frame 15 vc ''cast'' c)\<rparr>)))
               else Inr s1))"

definition genre_tab :: "(cell list \<Rightarrow> cell list) \<Rightarrow> app \<Rightarrow> error + app" where
  "genre_tab vc s =
     and_then (genre_tab_year_genre vc (df_clean s) (df_genre s) (df_filtered s))
       (\<lambda>r. Inr (case r of None \<Rightarrow> s | Some d \<Rightarrow> s\<lparr>df_year_genre := Some d\<rparr>))"

definition cast_tab :: "(cell list \<Rightarrow> cell list) \<Rightarrow> app \<Rightarrow> error + app" where
  "cast_tab vc s =
     and_then (cast_tab_year_cast vc (df_clean s) (df_cast s) (df_filtered s))
       (\<lambda>r. Inr (case r of None \<Rightarrow> s | Some d \<Rightarrow> s\<lparr>df_year_cast := Some d\<rparr>))"

definition yearly_tab :: "app \<Rightarrow> app" where
  "yearly_tab s =
     (case yearly_tab_year_genre (df_clean s) (df_genre s) (df_filtered s) of
        None \<Rightarrow> s | Some d \<Rightarrow> s\<lparr>df_year_genre := Some d\<rparr>)"

text \<open>Data-table tab, lines 445-455: the second download.\<close>

definition data_table_tab :: "(dataframe \<Rightarrow> string) \<Rightarrow> app \<Rightarrow> app" where
  "data_table_tab to_csv s = s\<lparr>table_csv := Some (to_csv (df_filtered s))\<rparr>"

text \<open>
  Lines 166-455 in order; the first exception ends the run. The scatter and correlation
  tabs (lines 402-440) bind figures and a correlation matrix only; they assign to none of
  the frames above.
\<close>

definition run_tabs ::
  "(cell list \<Rightarrow> cell list) \<Rightarrow> (dataframe \<Rightarrow> string) \<Rightarrow> app \<Rightarrow> error + app" where
  "run_tabs vc to_csv s =
     and_then (overview_tab vc s) (\<lambda>s1.
     and_then (genre_tab vc s1) (\<lambda>s2.
     and_then (cast_tab vc s2) (\<lambda>s3.
     Inr (data_table_tab to_csv (yearly_tab s3)))))"

definition run_script ::
  "(cell list \<Rightarrow> cell list) \<Rightarrow> (dataframe \<Rightarrow> string) \<Rightarrow> config \<Rightarrow> app \<Rightarrow> error + app" where
  "run_script vc to_csv cfg s = and_then (sidebar to_csv cfg s) (run_tabs vc to_csv)"

section \<open>Predicates used in the statements\<close>

text \<open>A string that \<open>strip\<close> leaves alone: empty, or with no space character at either end.\<close>

definition trimmed :: "string \<Rightarrow> bool" where
  "trimmed s = (s = [] \<or> (\<not> is_space (hd s) \<and> \<not> is_space (last s)))"

text \<open>
  A frame is rectangular when every row has one cell per column label, as every pandas
  frame has.
\<close>

definition rect :: "dataframe \<Rightarrow> bool" where
  "rect df = list_all (\<lambda>r. length r = length (columns df)) (rows df)"

text \<open>
  The vocabulary of imputation: a cell that holds a finite number; a column after
  \<open>to_numeric\<close>; a series with its missing cells filled by its own median; the 64-bit
  integer a finite number is cast to; a series of finite numbers and missing cells with
  at least one finite number; and a column that can be cast: coerced, it has no cells,
  or it is such a series and, if a cell of it is missing, its median is finite (which the
  median of finite numbers is unless the mean of the two middle ones overflows).
\<close>

definition finite_cell :: "cell \<Rightarrow> bool" where
  "finite_cell v = (case v of Num x \<Rightarrow> True | _ \<Rightarrow> False)"

definition coerced :: "numerics \<Rightarrow> dataframe \<Rightarrow> string \<Rightarrow> cell list" where
  "coerced nm df c = map (to_numeric nm) (get_col df c)"

definition filled :: "numerics \<Rightarrow> cell list \<Rightarrow> cell list" where
  "filled nm vs = fillna (median nm vs) vs"

definition int_cell :: "numerics \<Rightarrow> cell \<Rightarrow> cell" where
  "int_cell nm v = (case v of Num x \<Rightarrow> Num (of_int (to_int64 nm x)) | _ \<Rightarrow> v)"

definition some_finite :: "cell list \<Rightarrow> bool" where
  "some_finite vs = (list_all (\<lambda>v. v = NaN \<or> finite_cell v) vs \<and> list_ex finite_cell vs)"

definition castable :: "numerics \<Rightarrow> dataframe \<Rightarrow> string \<Rightarrow> bool" where
  "castable nm df c =
     (c \<in> set (columns df) \<longrightarrow>
        (coerced nm df c = [] \<or> some_finite (coerced nm df c)) \<and>
        (NaN \<in> set (coerced nm df c) \<longrightarrow> finite_cell (median nm (coerced nm df c))))"

text \<open>A cell that holds a whole number, as every cell of a column cast to integers does.\<close>

definition int_valued :: "cell \<Rightarrow> bool" where
  "int_valued v = (case v of Num x \<Rightarrow> x = of_int (trunc x) | _ \<Rightarrow> False)"

text \<open>
  The row predicate the filter engine is specified by: every filter whose column and
  selection are present holds of the row.
\<close>

definition row_passes :: "dataframe \<Rightarrow> dataframe \<Rightarrow> dataframe \<Rightarrow> config \<Rightarrow> cell list \<Rightarrow> bool" where
  "row_passes dc dcast dg cfg r =
     ((''year'' \<in> set (columns dc) \<longrightarrow>
         between (fst (year_range cfg)) (snd (year_range cfg)) (cell_of (columns dc) ''year'' r)) \<and>
      (''metadata'' \<in> set (columns dc) \<longrightarrow>
         between (fst (meta_range cfg)) (snd (meta_range cfg)) (cell_of (columns dc) ''metadata'' r)) \<and>
      (genre_filter cfg \<noteq> [] \<and> ''title'' \<in> set (columns dc) \<and> ''genre'' \<in> set (columns dg) \<longrightarrow>
         (\<exists>g \<in> set (rows dg). cell_of (columns dg) ''genre'' g \<in> set (genre_filter cfg) \<and>
            cell_of (columns dg) ''title'' g = cell_of (columns dc) ''title'' r)) \<and>
      (cast_filter cfg \<noteq> [] \<and> ''title'' \<in> set (columns dc) \<and> ''cast'' \<in> set (columns dcast) \<longrightarrow>
         (\<exists>g \<in> set (rows dcast). cell_of (columns dcast) ''cast'' g \<in> set (cast_filter cfg) \<and>
            cell_of (columns dcast) ''title'' g = cell_of (columns dc) ''title'' r)))"

text \<open>
  One range inside another, as sets of integers, and a configuration that differs from
  another in one filter only, which it widens. A selection is widened from a non-empty
  one: the empty selection stands for no restriction.
\<close>

definition range_within :: "int \<times> int \<Rightarrow> int \<times> int \<Rightarrow> bool" where
  "range_within a b = ({fst a..snd a} \<subseteq> {fst b..snd b})"

definition widened :: "config \<Rightarrow> config \<Rightarrow> bool" where
  "widened c1 c2 =
     (c2 = c1\<lparr>year_range := year_range c2\<rparr> \<and> range_within (year_range c1) (year_range c2)
      \<or> c2 = c1\<lparr>meta_range := meta_range c2\<rparr> \<and> range_within (meta_range c1) (meta_range c2)
      \<or> c2 = c1\<lparr>genre_filter := genre_filter c2\<rparr> \<and> genre_filter c1 \<noteq> []
           \<and> set (genre_filter c1) \<subseteq> set (genre_filter c2)
      \<or> c2 = c1\<lparr>cast_filter := cast_filter c2\<rparr> \<and> cast_filter c1 \<noteq> []
           \<and> set (cast_filter c1) \<subseteq> set (cast_filter c2))"

text \<open>
  The vocabulary of the join. \<open>joinable attr ex\<close>: an exploded frame that is rectangular,
  has the attribute, title and year columns, and has no column called \<open>year_x\<close> or
  \<open>year_y\<close> of its own. \<open>candidates left j\<close>: in the joined frame \<open>j\<close>, \<open>year_y\<close> is the cell the
  movie frame contributed (the last one of each row) and \<open>year_x\<close> is the year the row of
  \<open>left\<close> had. \<open>year_resolved j d\<close>: \<open>d\<close> has one column \<open>year\<close> and neither candidate; its
  years are the coalesced candidates of \<open>j\<close> that are not missing; its other columns are
  those of \<open>j\<close> on the same rows. \<open>dfg_top_of\<close> is \<open>dfg_top\<close> of lines 228-250
  and \<open>dfc_top_of\<close> is \<open>dfc_top\<close> of lines 295-312.
\<close>

definition joinable :: "string \<Rightarrow> dataframe \<Rightarrow> bool" where
  "joinable attr ex =
     (rect ex \<and> attr \<in> set (columns ex) \<and> ''title'' \<in> set (columns ex) \<and>
      ''year'' \<in> set (columns ex) \<and> ''year_x'' \<notin> set (columns ex) \<and>
      ''year_y'' \<notin> set (columns ex))"

definition candidates :: "dataframe \<Rightarrow> dataframe \<Rightarrow> bool" where
  "candidates left j =
     (get_col j ''year_y'' = map last (rows j) \<and>
      get_col j ''year_x'' = map (\<lambda>m. cell_of (columns left) ''year'' (butlast m)) (rows j))"

definition year_resolved :: "dataframe \<Rightarrow> dataframe \<Rightarrow> bool" where
  "year_resolved j d =
     (let ys = coalesce (get_col j ''year_y'') (get_col j ''year_x'')
      in count_list (columns d) ''year'' = 1 \<and>
         ''year_x'' \<notin> set (columns d) \<and> ''year_y'' \<notin> set (columns d) \<and>
         get_col d ''year'' = filter (\<lambda>v. v \<noteq> NaN) ys \<and>
         NaN \<notin> set (get_col d ''year'') \<and>
         list_all (\<lambda>c. get_col d c = map fst (filter (\<lambda>(a, v). v \<noteq> NaN) (zip (get_col j c) ys)))
           (filter (\<lambda>c. c \<notin> set [''year_x'', ''year_y'']) (columns j)))"

definition dfg_top_of :: "(cell list \<Rightarrow> cell list) \<Rightarrow> dataframe \<Rightarrow> dataframe \<Rightarrow> dataframe" where
  "dfg_top_of vc genre_frame filtered =
     (let dfg = titles_in ''title'' filtered genre_frame
      in isin_rows ''genre'' (top 12 vc (get_col dfg ''genre'')) dfg)"

definition dfc_top_of :: "(cell list \<Rightarrow> cell list) \<Rightarrow> dataframe \<Rightarrow> dataframe \<Rightarrow> dataframe" where
  "dfc_top_of vc cast_frame filtered =
     (let dfc = titles_in ''title'' filtered cast_frame
      in isin_rows ''cast'' (top 15 vc (get_col dfc ''cast'')) dfc)"

section \<open>Example frames and parameters\<close>

text \<open>
  An index for \<open>value_counts\<close>: the distinct non-missing values, most frequent first, equal
  counts in order of first appearance. A numeric library: a non-empty string of decimal
  digits denotes its number and \<open>inf\<close> the positive infinity; the mean of two numbers is
  exact; an integer part that does not fit into 64 bits gives the least 64-bit integer. A
  CSV writer that writes the labels and then, row by row, the text cells and a mark for
  every other cell.
\<close>

definition value_counts_index :: "cell list \<Rightarrow> cell list" where
  "value_counts_index s =
     sort_key (\<lambda>v. - int (count_list s v)) (unique (filter (\<lambda>v. v \<noteq> NaN) s))"

definition ex_parse :: "string \<Rightarrow> parsed" where
  "ex_parse s =
     (if s = ''inf'' then Infinite True
      else if s \<noteq> [] \<and> list_all (\<lambda>c. c \<in> set ''0123456789'') s
      then Finite (of_int (foldl (\<lambda>n c. 10 * n + (of_char c - 48)) 0 s))
      else NotNumeric)"

definition ex_numerics :: numerics where
  "ex_numerics = \<lparr>parse = ex_parse, avg = (\<lambda>x y. Some ((x + y) / 2)),
      overflowed = (\<lambda>x. - (2 ^ 63))\<rparr>"

definition ex_to_csv :: "dataframe \<Rightarrow> string" where
  "ex_to_csv d =
     concat (columns d) @
     concat (map (\<lambda>r. concat (map (\<lambda>v. case v of Str t \<Rightarrow> t | _ \<Rightarrow> ''#'') r)) (rows d))"

text \<open>
  Two movies; their genres and cast, with a genre row for a movie \<open>C\<close> that the movie frame
  does not have; a genre frame without a title column; exploded frames with a year column
  of their own; a raw frame before coercion; a frame with no parseable score and a
  frame with no parseable year.
\<close>

definition ex_movies :: dataframe where
  "ex_movies = \<lparr>columns = [''title'', ''year'', ''metadata''],
      rows = [[Str ''A'', Num 2000, Num (15 / 2)], [Str ''B'', Num 2001, Num (17 / 2)]]\<rparr>"

definition ex_genres :: dataframe where
  "ex_genres = \<lparr>columns = [''title'', ''genre''],
      rows = [[Str ''A'', Str ''Drama''], [Str ''B'', Str ''Comedy''], [Str ''C'', Str ''Drama'']]\<rparr>"

definition ex_cast :: dataframe where
  "ex_cast = \<lparr>columns = [''title'', ''cast''],
      rows = [[Str ''A'', Str ''X''], [Str ''A'', Str ''Y''], [Str ''B'', Str ''X'']]\<rparr>"

definition ex_genres_untitled :: dataframe where
  "ex_genres_untitled = \<lparr>columns = [''movie'', ''genre''], rows = [[Str ''A'', Str ''Drama'']]\<rparr>"

definition ex_genres_y :: dataframe where
  "ex_genres_y = \<lparr>columns = [''title'', ''genre'', ''year''],
      rows = [[Str ''A'', Str ''Drama'', Num 1999], [Str ''B'', Str ''Comedy'', NaN],
              [Str ''C'', Str ''Drama'', Num 1997], [Str ''D'', Str ''Drama'', NaN]]\<rparr>"

definition ex_cast_y :: dataframe where
  "ex_cast_y = \<lparr>columns = [''title'', ''cast'', ''year''],
      rows = [[Str ''A'', Str ''X'', Num 1999], [Str ''A'', Str ''Y'', NaN],
              [Str ''B'', Str ''X'', Num 1998]]\<rparr>"

definition ex_raw :: dataframe where
  "ex_raw = \<lparr>columns = [''title'', ''year'', ''duration'', ''metadata''],
      rows = [[Str ''A'', Str ''1990'', Num 90, Str ''7''],
              [Str ''B'', Str ''unknown'', NaN, NaN],
              [Str ''C'', Str ''2000'', Num 101, Str ''9''],
              [Str ''D'', Str ''2001'', Num 140, Str ''unrated''],
              [Str ''E'', Str ''2005'', Num 96, Str ''5''],
              [Str ''F'', Str ''2020'', NaN, Str ''8'']]\<rparr>"

definition ex_unrated :: dataframe where
  "ex_unrated = \<lparr>columns = [''title'', ''metadata''],
      rows = [[Str ''A'', Str ''unrated''], [Str ''B'', NaN]]\<rparr>"

definition ex_undated :: dataframe where
  "ex_undated = \<lparr>columns = [''title'', ''year''],
      rows = [[Str ''A'', Str ''unknown''], [Str ''B'', NaN]]\<rparr>"

definition ex_app :: app where
  "ex_app = \<lparr>df_clean = ex_movies, df_cast = ex_cast, df_genre = ex_genres,
      df_filtered = \<lparr>columns = [], rows = []\<rparr>, csv_bytes = [],
      g_counts_df = None, c_counts_df = None, df_year_genre = None, df_year_cast = None,
      table_csv = None\<rparr>"

section \<open>Normalization: idempotence and the canonical score column\<close>

lemma lower_char_idem: "lower_char (lower_char c) = lower_char c"
  by (simp add: lower_char_def)

lemma lower_idem: "lower (lower s) = lower s"
  by (simp add: lower_def lower_char_idem)

lemma strip_trimmed: "trimmed (strip s)"
proof (cases "dropWhile is_space (rev (dropWhile is_space s)) = []")
  case True
  then show ?thesis by (simp add: strip_def trimmed_def)
next
  case False
  let ?t = "dropWhile is_space s"
  let ?u = "dropWhile is_space (rev ?t)"
  from False have t: "?t \<noteq> []" by (auto simp del: dropWhile_eq_Nil_conv)
  have "\<not> is_space (hd ?u)" using False by (rule hd_dropWhile)
  then have l: "\<not> is_space (last (strip s))"
    using False by (simp add: strip_def last_rev)
  have "last ?u = last (rev ?t)"
    using False by (metis dropWhile_eq_Nil_conv last_appendR takeWhile_dropWhile_id)
  then have "hd (strip s) = hd ?t"
    using False t by (simp add: strip_def hd_rev last_rev)
  moreover have "\<not> is_space (hd ?t)" using t by (rule hd_dropWhile)
  ultimately show ?thesis using l by (simp add: trimmed_def)
qed

lemma strip_id: "trimmed s \<Longrightarrow> strip s = s"
proof (cases s)
  case Nil
  then show ?thesis by (simp add: strip_def)
next
  case (Cons a as)
  assume "trimmed s"
  with Cons have h: "\<not> is_space a" and l: "\<not> is_space (last s)"
    by (simp_all add: trimmed_def)
  from h Cons have 1: "dropWhile is_space s = s" by simp
  from Cons have "hd (rev s) = last s" by (simp only: hd_rev)
  with l have "dropWhile is_space (rev s) = rev s"
    by (simp only: dropWhile_eq_self_iff) simp
  with 1 show ?thesis by (simp add: strip_def)
qed

lemma replace_char_trimmed:
  "trimmed s \<Longrightarrow> \<not> is_space b \<Longrightarrow> trimmed (replace_char a b s)"
  by (cases s) (auto simp add: trimmed_def replace_char_def hd_map last_map)

lemma replace_char_absent: "a \<notin> set s \<Longrightarrow> replace_char a b s = s"
  by (induction s) (auto simp add: replace_char_def)

lemma replace_char_removes: "a \<noteq> b \<Longrightarrow> a \<notin> set (replace_char a b s)"
  by (auto simp add: replace_char_def)

lemma replace_char_keeps_absent:
  "c \<notin> set s \<Longrightarrow> c \<noteq> b \<Longrightarrow> c \<notin> set (replace_char a b s)"
  by (auto simp add: replace_char_def)

lemma replace_char_lower:
  "lower s = s \<Longrightarrow> lower_char b = b \<Longrightarrow> lower (replace_char a b s) = replace_char a b s"
  by (induction s) (auto simp add: replace_char_def lower_def)

lemma underscore_facts: "\<not> is_space CHR ''_''" "lower_char CHR ''_'' = CHR ''_''"
  by (simp_all add: is_space_def lower_char_def)

lemma set_strip: "set (strip s) \<subseteq> set s"
proof -
  have "set (dropWhile is_space (rev (dropWhile is_space s))) \<subseteq> set (rev (dropWhile is_space s))"
    by (meson set_dropWhileD subsetI)
  also have "\<dots> \<subseteq> set s" using set_dropWhileD by fastforce
  finally show ?thesis by (simp add: strip_def)
qed

lemma lower_fixed: "(\<forall>x \<in> set s. lower_char x = x) \<Longrightarrow> lower s = s"
  by (simp add: lower_def map_idI)

lemma lower_strip_lower: "lower (strip (lower c)) = strip (lower c)"
proof (rule lower_fixed)
  have "\<forall>x \<in> set (lower c). lower_char x = x"
    by (auto simp add: lower_def lower_char_idem)
  then show "\<forall>x \<in> set (strip (lower c)). lower_char x = x"
    using set_strip by blast
qed

lemma norm_name_idem: "norm_name (norm_name c) = norm_name c"
proof (cases "c = ''metadata'' \<or> norm_name c = ''metadata''")
  case True
  then show ?thesis by (auto simp add: norm_name_def)
next
  case False
  define s0 where "s0 = strip (lower c)"
  define s1 where "s1 = replace_char CHR '' '' CHR ''_'' s0"
  define s2 where "s2 = replace_char (CHR 0x0A) CHR ''_'' s1"
  define s3 where "s3 = replace_char (CHR 0x09) CHR ''_'' s2"
  have n: "norm_name c = s3"
    using False by (simp add: norm_name_def s0_def s1_def s2_def s3_def)
  have low: "lower s3 = s3"
    unfolding s3_def s2_def s1_def s0_def
    by (intro replace_char_lower lower_strip_lower underscore_facts)
  have tr: "trimmed s3"
    unfolding s3_def s2_def s1_def s0_def
    by (intro replace_char_trimmed strip_trimmed underscore_facts)
  have a1: "CHR '' '' \<notin> set s1" unfolding s1_def by (rule replace_char_removes) simp
  have a2: "CHR 0x0A \<notin> set s2" unfolding s2_def by (rule replace_char_removes) simp
  have a3: "CHR 0x09 \<notin> set s3" unfolding s3_def by (rule replace_char_removes) simp
  have b2: "CHR '' '' \<notin> set s2"
    unfolding s2_def using a1 by (rule replace_char_keeps_absent) simp
  have b3: "CHR '' '' \<notin> set s3"
    unfolding s3_def using b2 by (rule replace_char_keeps_absent) simp
  have c3: "CHR 0x0A \<notin> set s3"
    unfolding s3_def using a2 by (rule replace_char_keeps_absent) simp
  have "norm_name s3 = s3"
    using False n low tr a3 b3 c3
    by (simp add: norm_name_def strip_id replace_char_absent)
  with n show ?thesis by simp
qed

lemma norm_name_metadata: "norm_name ''metadata'' = ''metadata''"
  by (simp add: norm_name_def)

lemma norm_name_duration: "norm_name ''duration'' = ''duration''"
  by code_simp

lemma columns_rename_if_absent:
  "columns (rename_if_absent old new df) =
     (if old \<in> set (columns df) \<and> new \<notin> set (columns df)
      then map (\<lambda>c. if c = old then new else c) (columns df) else columns df)"
  by (simp add: rename_if_absent_def)

lemma rows_rename_if_absent: "rows (rename_if_absent old new df) = rows df"
  by (simp add: rename_if_absent_def)

lemma rename_if_absent_noop:
  "\<not> (old \<in> set (columns df) \<and> new \<notin> set (columns df)) \<Longrightarrow> rename_if_absent old new df = df"
  by (auto simp add: rename_if_absent_def)

lemma rename_if_absent_settled:
  "old \<noteq> new \<Longrightarrow>
   \<not> (old \<in> set (columns (rename_if_absent old new df)) \<and>
      new \<notin> set (columns (rename_if_absent old new df)))"
  by (auto simp add: columns_rename_if_absent)

lemma rename_if_absent_other:
  "c \<noteq> old \<Longrightarrow> c \<noteq> new \<Longrightarrow>
   c \<in> set (columns (rename_if_absent old new df)) \<longleftrightarrow> c \<in> set (columns df)"
  by (auto simp add: columns_rename_if_absent)

lemma normalize_columns_fixed:
  "(\<forall>c \<in> set (columns df). norm_name c = c) \<Longrightarrow> normalize_columns df = df"
  by (simp add: normalize_columns_def map_idI)

lemma schema_normalize_names_fixed:
  "c \<in> set (columns (schema_normalize df)) \<Longrightarrow> norm_name c = c"
  by (auto simp add: schema_normalize_def columns_rename_if_absent normalize_columns_def
        norm_name_idem norm_name_metadata norm_name_duration split: if_splits)

text \<open>
  Claim C5. The full schema normalization of one frame (the renaming loop of
  \<open>normalize_columns\<close>, then the \<open>meta_data\<close> rule, then the \<open>duration_\<close> rule) is idempotent:
  applied to an already normalized frame it changes no column label and nothing else.
\<close>

theorem schema_normalize_idempotent:
  "schema_normalize (schema_normalize df) = schema_normalize df"
proof -
  let ?R = "schema_normalize df"
  let ?M = "rename_if_absent ''meta_data'' ''metadata'' (normalize_columns df)"
  have 1: "normalize_columns ?R = ?R"
    by (rule normalize_columns_fixed) (simp add: schema_normalize_names_fixed)
  have "\<not> (''meta_data'' \<in> set (columns ?M) \<and> ''metadata'' \<notin> set (columns ?M))"
    by (rule rename_if_absent_settled) simp
  then have "\<not> (''meta_data'' \<in> set (columns ?R) \<and> ''metadata'' \<notin> set (columns ?R))"
    by (simp add: schema_normalize_def rename_if_absent_other)
  then have 2: "rename_if_absent ''meta_data'' ''metadata'' ?R = ?R"
    by (rule rename_if_absent_noop)
  have "\<not> (''duration_'' \<in> set (columns ?R) \<and> ''duration'' \<notin> set (columns ?R))"
    unfolding schema_normalize_def by (rule rename_if_absent_settled) simp
  then have 3: "rename_if_absent ''duration_'' ''duration'' ?R = ?R"
    by (rule rename_if_absent_noop)
  have "schema_normalize ?R =
      rename_if_absent ''duration_'' ''duration''
       (rename_if_absent ''meta_data'' ''metadata'' (normalize_columns ?R))"
    by (simp only: schema_normalize_def)
  with 1 2 3 show ?thesis by simp
qed

theorem schema_normalize_idempotent_witness:
  "schema_normalize
     (schema_normalize \<lparr>columns = ['' Title'', ''Meta Data'', ''Duration_''], rows = []\<rparr>)
   = \<lparr>columns = [''title'', ''metadata'', ''duration''], rows = []\<rparr>"
proof -
  have "schema_normalize \<lparr>columns = ['' Title'', ''Meta Data'', ''Duration_''], rows = []\<rparr>
      = \<lparr>columns = [''title'', ''metadata'', ''duration''], rows = []\<rparr>"
    by code_simp
  then show ?thesis
    using schema_normalize_idempotent
      [of "\<lparr>columns = ['' Title'', ''Meta Data'', ''Duration_''], rows = []\<rparr>"]
    by simp
qed

text \<open>
  Claim C6. Normalization establishes the canonical name of the score column. It keeps
  the number of columns; a column labelled exactly \<open>metadata\<close> before is labelled
  \<open>metadata\<close> after; and a column whose label is \<open>meta_data\<close> after the renaming loop ends
  up labelled \<open>metadata\<close> exactly when no column is labelled \<open>metadata\<close> at that point.
\<close>

theorem metadata_name_canonical:
  "i < length (columns df) \<Longrightarrow>
     length (columns (schema_normalize df)) = length (columns df) \<and>
     (columns df ! i = ''metadata'' \<longrightarrow> columns (schema_normalize df) ! i = ''metadata'') \<and>
     (columns (normalize_columns df) ! i = ''meta_data'' \<longrightarrow>
        (columns (schema_normalize df) ! i = ''metadata'') =
        (''metadata'' \<notin> set (columns (normalize_columns df))))"
proof -
  assume i: "i < length (columns df)"
  then have "norm_name (columns df ! i) = ''meta_data'' \<Longrightarrow>
      ''meta_data'' \<in> norm_name ` set (columns df)"
    by (metis image_eqI nth_mem)
  with i show ?thesis
    by (auto simp add: schema_normalize_def columns_rename_if_absent normalize_columns_def
          norm_name_metadata)
qed

theorem metadata_name_canonical_witness:
  "(1::nat) < length (columns \<lparr>columns = ['' Title'', ''Meta Data'', ''Duration_''], rows = []\<rparr>) \<and>
   columns (schema_normalize \<lparr>columns = ['' Title'', ''Meta Data'', ''Duration_''], rows = []\<rparr>)
     = [''title'', ''metadata'', ''duration''] \<and>
   columns (normalize_columns \<lparr>columns = ['' Title'', ''Meta Data'', ''Duration_''], rows = []\<rparr>) ! 1 = ''meta_data''"
  using metadata_name_canonical [of 1 "\<lparr>columns = ['' Title'', ''Meta Data'', ''Duration_''], rows = []\<rparr>"]
  by code_simp

section \<open>The filter engine\<close>

lemma set_unique_from: "set (unique_from seen xs) = set xs - set seen"
  by (induction seen xs rule: unique_from.induct) auto

lemma set_unique: "set (unique xs) = set xs"
  by (simp add: unique_def set_unique_from)

lemma distinct_unique_from: "distinct (unique_from seen xs)"
  by (induction seen xs rule: unique_from.induct) (auto simp add: set_unique_from)

lemma columns_select_rows: "columns (select_rows p df) = columns df"
  by (simp add: select_rows_def)

lemma rows_select_rows: "rows (select_rows p df) = filter p (rows df)"
  by (simp add: select_rows_def)

lemma set_get_col_select:
  "set (get_col (select_rows p ex) t) = cell_of (columns ex) t ` {g \<in> set (rows ex). p g}"
  by (auto simp add: get_col_def select_rows_def)

lemma filter_between_result:
  "filter_between c rng df = Inr d \<Longrightarrow>
     columns d = columns df \<and>
     rows d = filter (\<lambda>r. c \<in> set (columns df) \<longrightarrow>
                between (fst rng) (snd rng) (cell_of (columns df) c r)) (rows df)"
  by (auto simp add: filter_between_def select_rows_def split: if_splits)

lemma filter_member_result:
  "filter_member sel attr ex tc df = Inr d \<Longrightarrow>
     columns d = columns df \<and>
     rows d = filter (\<lambda>r. \<forall>t. tc = Some t \<and> sel \<noteq> [] \<and> attr \<in> set (columns ex) \<longrightarrow>
                (\<exists>g \<in> set (rows ex). cell_of (columns ex) attr g \<in> set sel \<and>
                   cell_of (columns ex) t g = cell_of (columns df) t r)) (rows df)"
proof (cases tc)
  case None
  assume "filter_member sel attr ex tc df = Inr d"
  with None show ?thesis by (simp add: filter_member_def)
next
  case (Some t)
  assume a: "filter_member sel attr ex tc df = Inr d"
  show ?thesis
  proof (cases "sel \<noteq> [] \<and> attr \<in> set (columns ex)")
    case False
    with a Some show ?thesis by (auto simp add: filter_member_def)
  next
    case True
    with a Some have
      d: "d = select_rows (\<lambda>r. cell_of (columns df) t r \<in> cell_of (columns ex) t `
              {g \<in> set (rows ex). cell_of (columns ex) attr g \<in> set sel}) df"
      by (simp add: filter_member_def Let_def set_unique set_get_col_select split: if_splits)
    have "filter (\<lambda>r. cell_of (columns df) t r \<in> cell_of (columns ex) t `
              {g \<in> set (rows ex). cell_of (columns ex) attr g \<in> set sel}) (rows df)
        = filter (\<lambda>r. \<forall>t. tc = Some t \<and> sel \<noteq> [] \<and> attr \<in> set (columns ex) \<longrightarrow>
                (\<exists>g \<in> set (rows ex). cell_of (columns ex) attr g \<in> set sel \<and>
                   cell_of (columns ex) t g = cell_of (columns df) t r)) (rows df)"
      using True Some by (intro filter_cong refl) (auto simp add: image_iff; metis)
    with d show ?thesis by (simp add: columns_select_rows rows_select_rows)
  qed
qed

lemma filter_engine_rows:
  assumes "filter_engine dc dcast dg cfg = Inr d"
  shows "columns d = columns dc \<and> rows d = filter (row_passes dc dcast dg cfg) (rows dc)"
proof -
  from assms obtain d1 d2 d3 where
    1: "filter_between ''year'' (year_range cfg) dc = Inr d1" and
    2: "filter_between ''metadata'' (meta_range cfg) d1 = Inr d2" and
    3: "filter_member (genre_filter cfg) ''genre'' dg (title_col dc) d2 = Inr d3" and
    4: "filter_member (cast_filter cfg) ''cast'' dcast (title_col dc) d3 = Inr d"
    by (auto simp add: filter_engine_def and_then_def split: sum.splits)
  note r1 = filter_between_result [OF 1] and r2 = filter_between_result [OF 2]
    and r3 = filter_member_result [OF 3] and r4 = filter_member_result [OF 4]
  have c: "columns d = columns dc" using r1 r2 r3 r4 by simp
  have "rows d = filter (row_passes dc dcast dg cfg) (rows dc)"
    using r1 r2 r3 r4
    by (auto simp add: row_passes_def title_col_def intro!: filter_cong)
  with c show ?thesis by simp
qed

lemma length_filter_mono:
  "(\<And>x. x \<in> set xs \<Longrightarrow> p x \<Longrightarrow> q x) \<Longrightarrow> length (filter p xs) \<le> length (filter q xs)"
  by (induction xs) auto

lemma between_widen:
  "range_within a b \<Longrightarrow> between (fst a) (snd a) v \<Longrightarrow> between (fst b) (snd b) v"
proof (cases v)
  case (Num x)
  assume w: "range_within a b" and b: "between (fst a) (snd a) v"
  from b Num have 1: "of_int (fst a) \<le> x" "x \<le> of_int (snd a)" by (simp_all add: between_def)
  then have "(of_int (fst a) :: rat) \<le> of_int (snd a)" by linarith
  then have "fst a \<le> snd a" by simp
  with w have "fst b \<le> fst a" "snd a \<le> snd b" by (simp_all add: range_within_def)
  then have "(of_int (fst b) :: rat) \<le> of_int (fst a)" "(of_int (snd a) :: rat) \<le> of_int (snd b)"
    by simp_all
  with 1 Num show ?thesis by (simp add: between_def)
qed (simp_all add: between_def)

lemma row_passes_widened:
  assumes "widened c1 c2" and "row_passes dc dcast dg c1 r"
  shows "row_passes dc dcast dg c2 r"
proof -
  from assms(1) consider
      (year) "c2 = c1\<lparr>year_range := year_range c2\<rparr>" "range_within (year_range c1) (year_range c2)"
    | (meta) "c2 = c1\<lparr>meta_range := meta_range c2\<rparr>" "range_within (meta_range c1) (meta_range c2)"
    | (genre) "c2 = c1\<lparr>genre_filter := genre_filter c2\<rparr>" "genre_filter c1 \<noteq> []"
        "set (genre_filter c1) \<subseteq> set (genre_filter c2)"
    | (cast) "c2 = c1\<lparr>cast_filter := cast_filter c2\<rparr>" "cast_filter c1 \<noteq> []"
        "set (cast_filter c1) \<subseteq> set (cast_filter c2)"
    unfolding widened_def by blast
  then show ?thesis
  proof cases
    case year
    have m: "meta_range c2 = meta_range c1" "genre_filter c2 = genre_filter c1"
        "cast_filter c2 = cast_filter c1"
      by (subst year(1), simp)+
    show ?thesis
      using assms(2) between_widen [OF year(2)] by (simp add: row_passes_def m)
  next
    case meta
    have m: "year_range c2 = year_range c1" "genre_filter c2 = genre_filter c1"
        "cast_filter c2 = cast_filter c1"
      by (subst meta(1), simp)+
    show ?thesis
      using assms(2) between_widen [OF meta(2)] by (simp add: row_passes_def m)
  next
    case genre
    have m: "year_range c2 = year_range c1" "meta_range c2 = meta_range c1"
        "cast_filter c2 = cast_filter c1"
      by (subst genre(1), simp)+
    show ?thesis
      using assms(2) genre(2,3) unfolding row_passes_def m by blast
  next
    case cast
    have m: "year_range c2 = year_range c1" "meta_range c2 = meta_range c1"
        "genre_filter c2 = genre_filter c1"
      by (subst cast(1), simp)+
    show ?thesis
      using assms(2) cast(2,3) unfolding row_passes_def m by blast
  qed
qed

text \<open>
  Claim C7, as amended. Take two configurations that differ in one filter only, the
  second at least as wide as the first there: its range contains the first one's, or its
  genre or cast selection contains the first one's and the first selection is not empty.
  When the filter engine returns a frame for both, the wider configuration's frame has at
  least as many rows.
\<close>

theorem filter_monotone:
  assumes "filter_engine dc dcast dg c1 = Inr r1"
    and "filter_engine dc dcast dg c2 = Inr r2"
    and "widened c1 c2"
  shows "length (rows r1) \<le> length (rows r2)"
proof -
  have "rows r1 = filter (row_passes dc dcast dg c1) (rows dc)"
    using filter_engine_rows [OF assms(1)] by simp
  moreover have "rows r2 = filter (row_passes dc dcast dg c2) (rows dc)"
    using filter_engine_rows [OF assms(2)] by simp
  ultimately show ?thesis
    using row_passes_widened [OF assms(3)] by (simp add: length_filter_mono)
qed

text \<open>
  Claim C1 at a failing input. The movie frame has a \<open>title\<close> column, the genre frame has
  a \<open>genre\<close> column and no \<open>title\<close> column, and one genre is selected: the guard of line
  128 passes and line 129 raises KeyError, where the claim promises a skipped step.
\<close>

theorem genre_filter_keyerror:
  "filter_engine ex_movies ex_cast ex_genres_untitled
     \<lparr>year_range = (2000, 2001), meta_range = (7, 9),
        genre_filter = [Str ''Drama''], cast_filter = []\<rparr> = Inl KeyError"
  by code_simp

text \<open>
  Claim C3 at a failing input. The scores are 7.5 and 8.5: the default metadata range is
  \<open>(7, 8)\<close>, since \<open>int\<close> truncates the maximum, and the filter engine under the default
  ranges drops the movie with score 8.5.
\<close>

theorem default_meta_range_drops_row:
  "default_meta_range ex_movies = Inr (7, 8) \<and>
   default_year_range ex_movies = Inr (2000, 2001) \<and>
   filter_engine ex_movies ex_cast ex_genres
     \<lparr>year_range = (2000, 2001), meta_range = (7, 8), genre_filter = [], cast_filter = []\<rparr>
   = Inr \<lparr>columns = [''title'', ''year'', ''metadata''],
          rows = [[Str ''A'', Num 2000, Num (15 / 2)]]\<rparr>"
  by code_simp

text \<open>
  Claim C7 as stated fails: the empty genre selection keeps both movies, the wider
  selection \<open>[Comedy]\<close> keeps one.
\<close>

theorem filter_monotone_counterexample:
  "filter_engine ex_movies ex_cast ex_genres
     \<lparr>year_range = (2000, 2001), meta_range = (7, 9), genre_filter = [], cast_filter = []\<rparr>
   = Inr \<lparr>columns = [''title'', ''year'', ''metadata''],
          rows = [[Str ''A'', Num 2000, Num (15 / 2)], [Str ''B'', Num 2001, Num (17 / 2)]]\<rparr> \<and>
   filter_engine ex_movies ex_cast ex_genres
     \<lparr>year_range = (2000, 2001), meta_range = (7, 9),
        genre_filter = [Str ''Comedy''], cast_filter = []\<rparr>
   = Inr \<lparr>columns = [''title'', ''year'', ''metadata''],
          rows = [[Str ''B'', Num 2001, Num (17 / 2)]]\<rparr> \<and>
   set ([] :: cell list) \<subseteq> set [Str ''Comedy''] \<and>
   \<not> length [[Str ''A'', Num 2000, Num (15 / 2)], [Str ''B'', Num 2001, Num (17 / 2)]]
       \<le> length [[Str ''B'', Num 2001, Num (17 / 2)]]"
  by code_simp

theorem filter_monotone_witness:
  "filter_engine ex_movies ex_cast ex_genres
     \<lparr>year_range = (2000, 2000), meta_range = (7, 9),
        genre_filter = [Str ''Drama''], cast_filter = []\<rparr>
   = Inr \<lparr>columns = [''title'', ''year'', ''metadata''],
          rows = [[Str ''A'', Num 2000, Num (15 / 2)]]\<rparr> \<and>
   filter_engine ex_movies ex_cast ex_genres
     \<lparr>year_range = (2000, 2000), meta_range = (7, 9),
        genre_filter = [Str ''Drama'', Str ''Comedy''], cast_filter = []\<rparr>
   = Inr \<lparr>columns = [''title'', ''year'', ''metadata''],
          rows = [[Str ''A'', Num 2000, Num (15 / 2)]]\<rparr> \<and>
   widened
     \<lparr>year_range = (2000, 2000), meta_range = (7, 9),
        genre_filter = [Str ''Drama''], cast_filter = []\<rparr>
     \<lparr>year_range = (2000, 2000), meta_range = (7, 9),
        genre_filter = [Str ''Drama'', Str ''Comedy''], cast_filter = []\<rparr> \<and>
   length (rows \<lparr>columns = [''title'', ''year'', ''metadata''],
          rows = [[Str ''A'', Num 2000, Num (15 / 2)]]\<rparr>)
   \<le> length (rows \<lparr>columns = [''title'', ''year'', ''metadata''],
          rows = [[Str ''A'', Num 2000, Num (15 / 2)]]\<rparr>)"
proof -
  let ?c1 = "\<lparr>year_range = (2000, 2000), meta_range = (7, 9),
        genre_filter = [Str ''Drama''], cast_filter = []\<rparr>"
  let ?c2 = "\<lparr>year_range = (2000, 2000), meta_range = (7, 9),
        genre_filter = [Str ''Drama'', Str ''Comedy''], cast_filter = []\<rparr>"
  let ?r = "\<lparr>columns = [''title'', ''year'', ''metadata''],
          rows = [[Str ''A'', Num 2000, Num (15 / 2)]]\<rparr>"
  have h1: "filter_engine ex_movies ex_cast ex_genres ?c1 = Inr ?r" by code_simp
  have h2: "filter_engine ex_movies ex_cast ex_genres ?c2 = Inr ?r" by code_simp
  have h3: "widened ?c1 ?c2" by (simp add: widened_def)
  show ?thesis using h1 h2 h3 filter_monotone [OF h1 h2 h3] by simp
qed

section \<open>The script: filtered frame, exports and the genre heatmap\<close>

lemma count_list_filter_le: "count_list (filter p xs) r \<le> count_list xs r"
  by (induction xs) auto

lemma sidebar_result:
  assumes "sidebar to_csv cfg s = Inr s1"
  shows "\<exists>d. filter_engine (df_clean s) (df_cast s) (df_genre s) cfg = Inr d \<and>
           s1 = s\<lparr>df_filtered := d, csv_bytes := to_csv d\<rparr>"
  using assms by (auto simp add: sidebar_def and_then_def split: sum.splits)

text \<open>
  Claim C10. After the filters of the sidebar, \<open>df_filtered\<close> is the frame the filter engine
  returns for the base frames; it has the columns of \<open>df_clean\<close>; its rows are rows of
  \<open>df_clean\<close>, unchanged and in the same relative order (a subsequence); no row occurs more
  often than in \<open>df_clean\<close>; and the three base frames are what they were.
\<close>

theorem filtered_is_ordered_subset:
  assumes "sidebar to_csv cfg s = Inr s1"
  shows "filter_engine (df_clean s) (df_cast s) (df_genre s) cfg = Inr (df_filtered s1) \<and>
         columns (df_filtered s1) = columns (df_clean s) \<and>
         subseq (rows (df_filtered s1)) (rows (df_clean s)) \<and>
         (\<forall>r. count_list (rows (df_filtered s1)) r \<le> count_list (rows (df_clean s)) r) \<and>
         df_clean s1 = df_clean s \<and> df_cast s1 = df_cast s \<and> df_genre s1 = df_genre s"
proof -
  from sidebar_result [OF assms] obtain d where
    d: "filter_engine (df_clean s) (df_cast s) (df_genre s) cfg = Inr d" and
    s1: "s1 = s\<lparr>df_filtered := d, csv_bytes := to_csv d\<rparr>"
    by blast
  from filter_engine_rows [OF d] have
    c: "columns d = columns (df_clean s)" and
    r: "rows d = filter (row_passes (df_clean s) (df_cast s) (df_genre s) cfg) (rows (df_clean s))"
    by simp_all
  from r have "subseq (rows d) (rows (df_clean s))" by simp
  moreover from r have "\<forall>x. count_list (rows d) x \<le> count_list (rows (df_clean s)) x"
    by (simp add: count_list_filter_le)
  ultimately show ?thesis using d c s1 by simp
qed

theorem filtered_is_ordered_subset_witness:
  "sidebar ex_to_csv
     \<lparr>year_range = (2001, 2001), meta_range = (7, 9), genre_filter = [], cast_filter = []\<rparr>
     ex_app
   = Inr (ex_app\<lparr>df_filtered := \<lparr>columns = [''title'', ''year'', ''metadata''],
                      rows = [[Str ''B'', Num 2001, Num (17 / 2)]]\<rparr>,
                  csv_bytes := ''titleyearmetadataB##''\<rparr>) \<and>
   subseq [[Str ''B'', Num 2001, Num (17 / 2)]] (rows ex_movies)"
proof -
  let ?cfg = "\<lparr>year_range = (2001, 2001), meta_range = (7, 9), genre_filter = [], cast_filter = []\<rparr>"
  let ?s1 = "ex_app\<lparr>df_filtered := \<lparr>columns = [''title'', ''year'', ''metadata''],
                      rows = [[Str ''B'', Num 2001, Num (17 / 2)]]\<rparr>,
                  csv_bytes := ''titleyearmetadataB##''\<rparr>"
  have h: "sidebar ex_to_csv ?cfg ex_app = Inr ?s1" by code_simp
  have "df_clean ex_app = ex_movies" by (simp add: ex_app_def)
  with filtered_is_ordered_subset [OF h] h show ?thesis by simp
qed

lemma overview_tab_frame:
  "overview_tab vc s = Inr s' \<Longrightarrow>
   df_filtered s' = df_filtered s \<and> csv_bytes s' = csv_bytes s \<and> table_csv s' = table_csv s \<and>
   df_clean s' = df_clean s \<and> df_genre s' = df_genre s \<and> df_cast s' = df_cast s"
  by (auto simp add: overview_tab_def and_then_def px_bar_counts_def Let_def
        split: option.splits if_splits sum.splits)

lemma genre_tab_frame:
  "genre_tab vc s = Inr s' \<Longrightarrow>
   df_filtered s' = df_filtered s \<and> csv_bytes s' = csv_bytes s \<and> table_csv s' = table_csv s \<and>
   df_clean s' = df_clean s \<and> df_genre s' = df_genre s \<and> df_cast s' = df_cast s"
  by (auto simp add: genre_tab_def and_then_def split: sum.splits option.splits)

lemma cast_tab_frame:
  "cast_tab vc s = Inr s' \<Longrightarrow>
   df_filtered s' = df_filtered s \<and> csv_bytes s' = csv_bytes s \<and> table_csv s' = table_csv s \<and>
   df_clean s' = df_clean s \<and> df_genre s' = df_genre s \<and> df_cast s' = df_cast s"
  by (auto simp add: cast_tab_def and_then_def split: sum.splits option.splits)

lemma yearly_tab_frame:
  "df_filtered (yearly_tab s) = df_filtered s \<and> csv_bytes (yearly_tab s) = csv_bytes s \<and>
   df_clean (yearly_tab s) = df_clean s \<and> df_genre (yearly_tab s) = df_genre s \<and>
   df_cast (yearly_tab s) = df_cast s"
  by (simp add: yearly_tab_def split: option.splits)

lemma run_tabs_frame:
  assumes "run_tabs vc to_csv s = Inr s'"
  shows "df_filtered s' = df_filtered s \<and> csv_bytes s' = csv_bytes s \<and>
         table_csv s' = Some (to_csv (df_filtered s)) \<and>
         df_clean s' = df_clean s \<and> df_genre s' = df_genre s \<and> df_cast s' = df_cast s"
proof -
  from assms obtain s1 s2 s3 where
    o: "overview_tab vc s = Inr s1" and
    g: "genre_tab vc s1 = Inr s2" and
    c: "cast_tab vc s2 = Inr s3" and
    e: "s' = data_table_tab to_csv (yearly_tab s3)"
    by (auto simp add: run_tabs_def and_then_def split: sum.splits)
  from overview_tab_frame [OF o] genre_tab_frame [OF g] cast_tab_frame [OF c] have
    "df_filtered s3 = df_filtered s \<and> csv_bytes s3 = csv_bytes s \<and>
     df_clean s3 = df_clean s \<and> df_genre s3 = df_genre s \<and> df_cast s3 = df_cast s"
    by simp
  with e show ?thesis
    by (simp add: data_table_tab_def yearly_tab_frame)
qed

lemma get_col_no_rows: "rows d = [] \<Longrightarrow> get_col d c = []"
  by (simp add: get_col_def)

lemma titles_in_no_rows: "rows dff = [] \<Longrightarrow> rows (titles_in t dff ex) = []"
  by (simp add: titles_in_def select_rows_def get_col_def)

text \<open>
  Claim C8 at a failing input. With the year range set to 2000 only and the score range
  to 8 only, no movie of the example passes the filters. The sidebar offers its download,
  the CSV of the empty frame. The overview tab then counts the genres of no movie and
  hands the empty counts to \<open>px.bar\<close> (line 185), which raises: the run ends there, and
  the download of the data-table tab (line 450) is never offered.
\<close>

theorem empty_selection_stops_before_table_export:
  "sidebar ex_to_csv
     \<lparr>year_range = (2000, 2000), meta_range = (8, 8), genre_filter = [], cast_filter = []\<rparr>
     ex_app
   = Inr (ex_app\<lparr>df_filtered := \<lparr>columns = [''title'', ''year'', ''metadata''], rows = []\<rparr>,
                  csv_bytes := ''titleyearmetadata''\<rparr>) \<and>
   overview_tab value_counts_index
     (ex_app\<lparr>df_filtered := \<lparr>columns = [''title'', ''year'', ''metadata''], rows = []\<rparr>,
             csv_bytes := ''titleyearmetadata''\<rparr>)
   = Inl ValueError \<and>
   run_script value_counts_index ex_to_csv
     \<lparr>year_range = (2000, 2000), meta_range = (8, 8), genre_filter = [], cast_filter = []\<rparr>
     ex_app
   = Inl ValueError"
  by code_simp

text \<open>
  The two downloads of a run that reaches the data-table tab. \<open>df_filtered\<close> is then still
  the frame the filter engine returned, no tab in between has changed it, and the bytes
  of the second download are the bytes of the sidebar download: both are what the CSV
  writer makes of that frame.
\<close>

theorem exports_identical:
  assumes "sidebar to_csv cfg s = Inr s1" and "run_tabs vc to_csv s1 = Inr s2"
  shows "filter_engine (df_clean s) (df_cast s) (df_genre s) cfg = Inr (df_filtered s1) \<and>
         csv_bytes s1 = to_csv (df_filtered s1) \<and>
         df_filtered s2 = df_filtered s1 \<and>
         csv_bytes s2 = csv_bytes s1 \<and>
         table_csv s2 = Some (csv_bytes s2)"
proof -
  from sidebar_result [OF assms(1)] obtain d where
    d: "filter_engine (df_clean s) (df_cast s) (df_genre s) cfg = Inr d" and
    s1: "s1 = s\<lparr>df_filtered := d, csv_bytes := to_csv d\<rparr>"
    by blast
  from s1 have "df_filtered s1 = d" "csv_bytes s1 = to_csv d" by simp_all
  with d run_tabs_frame [OF assms(2)] show ?thesis by simp
qed

theorem exports_identical_witness:
  "sidebar ex_to_csv
     \<lparr>year_range = (2000, 2000), meta_range = (7, 9), genre_filter = [], cast_filter = []\<rparr>
     ex_app
   = Inr (ex_app\<lparr>df_filtered := \<lparr>columns = [''title'', ''year'', ''metadata''],
                      rows = [[Str ''A'', Num 2000, Num (15 / 2)]]\<rparr>,
                  csv_bytes := ''titleyearmetadataA##''\<rparr>) \<and>
   \<not> isl (run_tabs value_counts_index ex_to_csv
     (ex_app\<lparr>df_filtered := \<lparr>columns = [''title'', ''year'', ''metadata''],
                      rows = [[Str ''A'', Num 2000, Num (15 / 2)]]\<rparr>,
                  csv_bytes := ''titleyearmetadataA##''\<rparr>)) \<and>
   table_csv (projr (run_tabs value_counts_index ex_to_csv
     (ex_app\<lparr>df_filtered := \<lparr>columns = [''title'', ''year'', ''metadata''],
                      rows = [[Str ''A'', Num 2000, Num (15 / 2)]]\<rparr>,
                  csv_bytes := ''titleyearmetadataA##''\<rparr>))) = Some ''titleyearmetadataA##''"
proof -
  let ?cfg = "\<lparr>year_range = (2000, 2000), meta_range = (7, 9), genre_filter = [], cast_filter = []\<rparr>"
  let ?s1 = "ex_app\<lparr>df_filtered := \<lparr>columns = [''title'', ''year'', ''metadata''],
                      rows = [[Str ''A'', Num 2000, Num (15 / 2)]]\<rparr>,
                  csv_bytes := ''titleyearmetadataA##''\<rparr>"
  have h1: "sidebar ex_to_csv ?cfg ex_app = Inr ?s1" by code_simp
  have r: "\<not> isl (run_tabs value_counts_index ex_to_csv ?s1)" by code_simp
  then have h2: "run_tabs value_counts_index ex_to_csv ?s1
      = Inr (projr (run_tabs value_counts_index ex_to_csv ?s1))"
    by simp
  let ?s2 = "projr (run_tabs value_counts_index ex_to_csv ?s1)"
  from exports_identical [OF h1 h2] have a: "csv_bytes ?s2 = csv_bytes ?s1"
    and b: "table_csv ?s2 = Some (csv_bytes ?s2)"
    by blast+
  have c: "csv_bytes ?s1 = ''titleyearmetadataA##''" by simp
  from a b c have "table_csv ?s2 = Some ''titleyearmetadataA##''" by (simp only:)
  with h1 r show ?thesis by blast
qed

text \<open>
  A run whose filters leave no movie. When the movie frame and the genre frame have a
  title column and the genre frame a genre column, the bar chart of line 185 raises and
  the run ends in the overview tab, whatever the frames hold.
\<close>

theorem no_movie_left_raises:
  assumes "rows (df_filtered s) = []"
    and "''title'' \<in> set (columns (df_clean s))"
    and "''title'' \<in> set (columns (df_filtered s))"
    and "''title'' \<in> set (columns (df_genre s))"
    and "''genre'' \<in> set (columns (df_genre s))"
  shows "run_tabs vc to_csv s = Inl ValueError"
proof -
  have "get_col (titles_in ''title'' (df_filtered s) (df_genre s)) ''genre'' = []"
    using assms(1) by (simp add: get_col_no_rows titles_in_no_rows)
  then have "overview_tab vc s = Inl ValueError"
    using assms(2-5)
    by (simp add: overview_tab_def title_col_def Let_def and_then_def px_bar_counts_def
          has_values_def)
  then show ?thesis by (simp add: run_tabs_def and_then_def)
qed

theorem no_movie_left_raises_witness:
  "run_tabs value_counts_index ex_to_csv
     (ex_app\<lparr>df_filtered := \<lparr>columns = [''title'', ''year'', ''metadata''], rows = []\<rparr>\<rparr>)
   = Inl ValueError"
proof -
  let ?s = "ex_app\<lparr>df_filtered := \<lparr>columns = [''title'', ''year'', ''metadata''], rows = []\<rparr>\<rparr>"
  have 1: "rows (df_filtered ?s) = []" by simp
  have 2: "''title'' \<in> set (columns (df_clean ?s))" by code_simp
  have 3: "''title'' \<in> set (columns (df_filtered ?s))" by code_simp
  have 4: "''title'' \<in> set (columns (df_genre ?s))" by code_simp
  have 5: "''genre'' \<in> set (columns (df_genre ?s))" by code_simp
  from no_movie_left_raises [OF 1 2 3 4 5] show ?thesis .
qed

text \<open>
  Claim C9 at a failing input. With the year range set to 2000 only, movie B is filtered
  out: the filtered frame holds movie A alone, and so does the join of the filtered
  top-genre rows with the years (line 256). That join is discarded: line 261 binds \<open>df_year_genre\<close> again, to the
  join of the whole genre frame, and the frame that feeds the heatmap of the genre tab
  has the row of movie B.
\<close>

theorem genre_heatmap_ignores_filter:
  "filter_engine ex_movies ex_cast ex_genres
     \<lparr>year_range = (2000, 2000), meta_range = (7, 9), genre_filter = [], cast_filter = []\<rparr>
   = Inr \<lparr>columns = [''title'', ''year'', ''metadata''],
          rows = [[Str ''A'', Num 2000, Num (15 / 2)]]\<rparr> \<and>
   merge_year ''title''
     (dfg_top_of value_counts_index ex_genres
        \<lparr>columns = [''title'', ''year'', ''metadata''],
           rows = [[Str ''A'', Num 2000, Num (15 / 2)]]\<rparr>)
     (project2 ''title'' ''year'' ex_movies)
   = \<lparr>columns = [''title'', ''genre'', ''year''],
      rows = [[Str ''A'', Str ''Drama'', Num 2000]]\<rparr> \<and>
   genre_tab_year_genre value_counts_index ex_movies ex_genres
     \<lparr>columns = [''title'', ''year'', ''metadata''],
        rows = [[Str ''A'', Num 2000, Num (15 / 2)]]\<rparr>
   = Inr (Some \<lparr>columns = [''title'', ''genre'', ''year''],
                rows = [[Str ''A'', Str ''Drama'', Num 2000],
                        [Str ''B'', Str ''Comedy'', Num 2001]]\<rparr>)"
  by code_simp

lemma genre_tab_year_genre_full:
  assumes "columns dff = columns dc"
  shows "genre_tab_year_genre vc dc dg dff =
     (if ''title'' \<in> set (columns dc) \<and> ''genre'' \<in> set (columns dg)
         \<and> ''title'' \<in> set (columns dg)
      then (if has_values (get_col (titles_in ''title'' dff dg) ''genre'')
            then (if ''year'' \<in> set (columns dc)
                  then and_then
                         (dropna_subset ''year''
                           (unify_year (merge_year ''title'' dg (project2 ''title'' ''year'' dc))))
                         (\<lambda>d. Inr (Some d))
                  else Inr None)
            else Inl ValueError)
      else Inr None)"
  using assms
  by (simp add: genre_tab_year_genre_def title_col_def Let_def and_then_def px_bar_counts_def)

text \<open>
  The heatmap of the genre tab under two settings of the sidebar. Whenever the tab gets
  as far as the heatmap under both, the frame that feeds it is the same: the resolved
  join of the whole genre frame with the movie frame.
\<close>

theorem genre_heatmap_same_for_selections:
  assumes "sidebar to_csv cfg s = Inr s1" and "sidebar to_csv cfg' s = Inr s1'"
    and "genre_tab_year_genre vc (df_clean s1) (df_genre s1) (df_filtered s1) = Inr (Some d)"
    and "genre_tab_year_genre vc' (df_clean s1') (df_genre s1') (df_filtered s1') = Inr (Some d')"
  shows "d' = d \<and>
         dropna_subset ''year''
           (unify_year (merge_year ''title'' (df_genre s)
              (project2 ''title'' ''year'' (df_clean s)))) = Inr d"
proof -
  have a: "\<And>c t. sidebar to_csv c s = Inr t \<Longrightarrow>
      df_clean t = df_clean s \<and> df_genre t = df_genre s \<and>
      columns (df_filtered t) = columns (df_clean t)"
  proof -
    fix c t assume h: "sidebar to_csv c s = Inr t"
    from sidebar_result [OF h] obtain d where
      d: "filter_engine (df_clean s) (df_cast s) (df_genre s) c = Inr d" and
      t: "t = s\<lparr>df_filtered := d, csv_bytes := to_csv d\<rparr>"
      by blast
    from filter_engine_rows [OF d] t
    show "df_clean t = df_clean s \<and> df_genre t = df_genre s \<and>
      columns (df_filtered t) = columns (df_clean t)"
      by simp
  qed
  let ?j = "dropna_subset ''year''
           (unify_year (merge_year ''title'' (df_genre s)
              (project2 ''title'' ''year'' (df_clean s))))"
  from a [OF assms(1)] assms(3) have 1: "?j = Inr d"
    by (auto simp add: genre_tab_year_genre_full and_then_def split: if_splits sum.splits)
  from a [OF assms(2)] assms(4) have 2: "?j = Inr d'"
    by (auto simp add: genre_tab_year_genre_full and_then_def split: if_splits sum.splits)
  from 1 2 show ?thesis by simp
qed

theorem genre_heatmap_same_for_selections_witness:
  "genre_tab_year_genre value_counts_index ex_movies ex_genres
     \<lparr>columns = [''title'', ''year'', ''metadata''],
        rows = [[Str ''B'', Num 2001, Num (17 / 2)]]\<rparr>
   = Inr (Some \<lparr>columns = [''title'', ''genre'', ''year''],
                rows = [[Str ''A'', Str ''Drama'', Num 2000],
                        [Str ''B'', Str ''Comedy'', Num 2001]]\<rparr>)"
proof -
  let ?cA = "\<lparr>year_range = (2000, 2000), meta_range = (7, 9), genre_filter = [], cast_filter = []\<rparr>"
  let ?cB = "\<lparr>year_range = (2001, 2001), meta_range = (7, 9), genre_filter = [], cast_filter = []\<rparr>"
  let ?fA = "\<lparr>columns = [''title'', ''year'', ''metadata''],
                      rows = [[Str ''A'', Num 2000, Num (15 / 2)]]\<rparr>"
  let ?fB = "\<lparr>columns = [''title'', ''year'', ''metadata''],
                      rows = [[Str ''B'', Num 2001, Num (17 / 2)]]\<rparr>"
  let ?sA = "ex_app\<lparr>df_filtered := ?fA, csv_bytes := ''titleyearmetadataA##''\<rparr>"
  let ?sB = "ex_app\<lparr>df_filtered := ?fB, csv_bytes := ''titleyearmetadataB##''\<rparr>"
  let ?d = "\<lparr>columns = [''title'', ''genre'', ''year''],
                rows = [[Str ''A'', Str ''Drama'', Num 2000],
                        [Str ''B'', Str ''Comedy'', Num 2001]]\<rparr>"
  let ?d' = "projr (dropna_subset ''year''
           (unify_year (merge_year ''title'' ex_genres (project2 ''title'' ''year'' ex_movies))))"
  have hA: "sidebar ex_to_csv ?cA ex_app = Inr ?sA" by code_simp
  have hB: "sidebar ex_to_csv ?cB ex_app = Inr ?sB" by code_simp
  have gA: "genre_tab_year_genre value_counts_index (df_clean ?sA) (df_genre ?sA) (df_filtered ?sA)
      = Inr (Some ?d)" by code_simp
  have gB: "genre_tab_year_genre value_counts_index (df_clean ?sB) (df_genre ?sB) (df_filtered ?sB)
      = Inr (Some (the (projr (genre_tab_year_genre value_counts_index (df_clean ?sB)
            (df_genre ?sB) (df_filtered ?sB)))))" by code_simp
  have e: "df_clean ?sB = ex_movies" "df_genre ?sB = ex_genres" "df_filtered ?sB = ?fB"
    by (simp_all add: ex_app_def)
  from genre_heatmap_same_for_selections [OF hA hB gA gB]
  have "the (projr (genre_tab_year_genre value_counts_index (df_clean ?sB)
            (df_genre ?sB) (df_filtered ?sB))) = ?d"
    by blast
  with gB have "genre_tab_year_genre value_counts_index (df_clean ?sB) (df_genre ?sB)
      (df_filtered ?sB) = Inr (Some ?d)"
    by (simp only:)
  then show ?thesis by (simp only: e)
qed

section \<open>Coercion and imputation\<close>

lemma cell_of_update_same:
  "c \<in> set cols \<Longrightarrow> col_index cols c < length r \<Longrightarrow>
   cell_of cols c (r[col_index cols c := v]) = v"
proof (induction cols arbitrary: r)
  case Nil
  then show ?case by simp
next
  case (Cons a cols)
  then show ?case
    by (cases r) (auto simp add: cell_of_def col_index_def)
qed

lemma cell_of_update_other:
  "c' \<noteq> c \<Longrightarrow> cell_of cols c' (r[col_index cols c := v]) = cell_of cols c' r"
proof (induction cols arbitrary: r)
  case Nil
  then show ?case by (simp add: cell_of_def)
next
  case (Cons a cols)
  then show ?case
    by (cases r) (auto simp add: cell_of_def col_index_def)
qed

lemma col_index_less: "c \<in> set cols \<Longrightarrow> col_index cols c < length cols"
  by (induction cols) (auto simp add: col_index_def)

lemma columns_assign_col: "c \<in> set (columns df) \<Longrightarrow> columns (assign_col c vs df) = columns df"
  by (simp add: assign_col_def)

lemma length_rows_assign_col:
  "length vs = length (rows df) \<Longrightarrow> length (rows (assign_col c vs df)) = length (rows df)"
  by (simp add: assign_col_def)

lemma rect_assign_col:
  "c \<in> set (columns df) \<Longrightarrow> rect df \<Longrightarrow> rect (assign_col c vs df)"
  by (auto simp add: assign_col_def rect_def list_all_iff dest!: set_zip_leftD)

lemma map_zip_fst_eq:
  "length vs = length rs \<Longrightarrow> (\<And>r v. r \<in> set rs \<Longrightarrow> f (r, v) = v) \<Longrightarrow> map f (zip rs vs) = vs"
proof (induction rs arbitrary: vs)
  case Nil
  then show ?case by simp
next
  case (Cons r rs)
  then show ?case by (cases vs) auto
qed

lemma map_zip_snd_irrelevant:
  "length vs = length rs \<Longrightarrow> (\<And>r v. f (r, v) = g r) \<Longrightarrow> map f (zip rs vs) = map g rs"
proof (induction rs arbitrary: vs)
  case Nil
  then show ?case by simp
next
  case (Cons r rs)
  then show ?case by (cases vs) auto
qed

lemma get_col_assign_same:
  assumes "c \<in> set (columns df)" and "rect df" and "length vs = length (rows df)"
  shows "get_col (assign_col c vs df) c = vs"
proof -
  have "map (\<lambda>(r, v). cell_of (columns df) c (r[col_index (columns df) c := v]))
          (zip (rows df) vs) = vs"
  proof (rule map_zip_fst_eq [OF assms(3)])
    fix r v assume "r \<in> set (rows df)"
    with assms(2) have "length r = length (columns df)" by (simp add: rect_def list_all_iff)
    with assms(1) have "col_index (columns df) c < length r" by (simp add: col_index_less)
    with assms(1) show "(case (r, v) of (r, v) \<Rightarrow>
        cell_of (columns df) c (r[col_index (columns df) c := v])) = v"
      by (simp add: cell_of_update_same)
  qed
  with assms(1) show ?thesis
    by (simp add: get_col_def assign_col_def comp_def case_prod_unfold)
qed

lemma get_col_assign_other:
  assumes "c \<in> set (columns df)" and "c' \<noteq> c" and "length vs = length (rows df)"
  shows "get_col (assign_col c vs df) c' = get_col df c'"
proof -
  have "map (\<lambda>(r, v). cell_of (columns df) c' (r[col_index (columns df) c := v]))
          (zip (rows df) vs) = map (cell_of (columns df) c') (rows df)"
    using assms(3) by (rule map_zip_snd_irrelevant) (simp add: cell_of_update_other assms(2))
  with assms(1) show ?thesis
    by (simp add: get_col_def assign_col_def comp_def case_prod_unfold)
qed

lemma length_get_col: "length (get_col df c) = length (rows df)"
  by (simp add: get_col_def)

lemma repeated_assign_col:
  "a \<in> set (columns df) \<Longrightarrow> repeated (assign_col a vs df) c = repeated df c"
  by (simp add: repeated_def assign_col_def)

lemma coerce_numeric_repeated:
  "\<exists>c \<in> set cs. repeated df c \<Longrightarrow> coerce_numeric nm df cs = Inl TypeError"
proof (induction cs arbitrary: df)
  case Nil
  then show ?case by simp
next
  case (Cons a cs)
  show ?case
  proof (cases "repeated df a")
    case True
    then have "a \<in> set (columns df)"
      by (auto simp add: repeated_def count_list_0_iff intro: ccontr)
    with True show ?thesis by simp
  next
    case False
    with Cons.prems have r: "\<exists>c \<in> set cs. repeated df c" by auto
    show ?thesis
    proof (cases "a \<in> set (columns df)")
      case True
      let ?d = "assign_col a (map (to_numeric nm) (get_col df a)) df"
      from r True have "\<exists>c \<in> set cs. repeated ?d c" by (simp add: repeated_assign_col)
      then have "coerce_numeric nm ?d cs = Inl TypeError" by (rule Cons.IH)
      with True False show ?thesis by simp
    next
      case False
      with Cons.IH [OF r] show ?thesis by simp
    qed
  qed
qed

lemma coerce_numeric_props:
  "rect df \<Longrightarrow> distinct cs \<Longrightarrow> \<forall>c \<in> set cs. \<not> repeated df c \<Longrightarrow>
   \<exists>d. coerce_numeric nm df cs = Inr d \<and>
     columns d = columns df \<and> rect d \<and> length (rows d) = length (rows df) \<and>
     (\<forall>c. get_col d c =
        (if c \<in> set cs \<and> c \<in> set (columns df) then coerced nm df c else get_col df c))"
proof (induction cs arbitrary: df)
  case Nil
  then show ?case by simp
next
  case (Cons a cs)
  let ?d = "if a \<in> set (columns df)
            then assign_col a (map (to_numeric nm) (get_col df a)) df else df"
  have c: "columns ?d = columns df" by (simp add: columns_assign_col)
  have r: "rect ?d" using Cons.prems(1) by (simp add: rect_assign_col)
  have l: "length (rows ?d) = length (rows df)"
    by (simp add: length_rows_assign_col length_get_col)
  have g: "\<And>c. get_col ?d c =
      (if c = a \<and> a \<in> set (columns df) then coerced nm df a else get_col df c)"
    using Cons.prems(1)
    by (auto simp add: get_col_assign_same get_col_assign_other length_get_col coerced_def)
  from Cons.prems(2) have d: "distinct cs" and n: "a \<notin> set cs" by simp_all
  from Cons.prems(3) have na: "\<not> repeated df a" by simp
  from Cons.prems(3) have "\<forall>c \<in> set cs. \<not> repeated ?d c"
    by (simp add: repeated_assign_col)
  from Cons.IH [OF r d this] obtain e where
    e: "coerce_numeric nm ?d cs = Inr e" and
    ce: "columns e = columns ?d" and re: "rect e" and
    le: "length (rows e) = length (rows ?d)" and
    ge: "\<And>c. get_col e c =
        (if c \<in> set cs \<and> c \<in> set (columns ?d) then coerced nm ?d c else get_col ?d c)"
    by blast
  have "coerce_numeric nm df (a # cs) = coerce_numeric nm ?d cs" using na by simp
  with e have 1: "coerce_numeric nm df (a # cs) = Inr e" by simp
  have k: "\<And>c. c \<in> set cs \<Longrightarrow> coerced nm ?d c = coerced nm df c"
    using n g by (auto simp add: coerced_def)
  have "get_col e c =
        (if c \<in> set (a # cs) \<and> c \<in> set (columns df) then coerced nm df c else get_col df c)"
    for c
  proof (cases "c \<in> set cs")
    case True
    with n have "c \<noteq> a" by auto
    with True show ?thesis by (simp only: ge c k g) simp
  next
    case False
    then show ?thesis by (simp only: ge c g) auto
  qed
  with 1 ce re le c l show ?case by (intro exI [of _ e]) (simp only:, simp)
qed

lemma not_str_to_numeric: "\<not> is_str (to_numeric nm v)"
  by (cases v) (auto simp add: to_numeric_def split: parsed.splits)

lemma coerced_no_str: "\<not> list_ex is_str (coerced nm df c)"
  by (simp add: coerced_def list_ex_iff not_str_to_numeric)

lemma length_coerced: "length (coerced nm df c) = length (rows df)"
  by (simp add: coerced_def get_col_def)

lemma sorted_values_elems:
  "x \<in> set (sorted_values vs) \<Longrightarrow> (\<exists>r. x = Num r) \<or> (\<exists>b. x = Infty b)"
  by (auto simp add: sorted_values_def)

lemma mean2_not_str: "mean2 nm a b \<noteq> Str s"
  by (simp add: mean2_def split: cell.splits option.splits)

lemma median_not_str: "median nm vs \<noteq> Str s"
proof -
  let ?xs = "sorted_values vs"
  let ?n = "length ?xs"
  show ?thesis
  proof (cases "?n = 0")
    case True
    then show ?thesis by (simp add: median_def Let_def)
  next
    case False
    then have "?n div 2 < ?n" by simp
    then have "?xs ! (?n div 2) \<in> set ?xs" by (rule nth_mem)
    from sorted_values_elems [OF this] have "?xs ! (?n div 2) \<noteq> Str s" by auto
    with False show ?thesis by (simp add: median_def Let_def mean2_not_str)
  qed
qed

lemma sort_eq_Nil: "sort xs = [] \<longleftrightarrow> xs = []"
  by (metis length_0_conv length_sort)

lemma nums_nonempty: "list_ex finite_cell vs \<Longrightarrow> nums vs \<noteq> []"
proof (induction vs)
  case Nil
  then show ?case by simp
next
  case (Cons v vs)
  then show ?case by (cases v) (auto simp add: finite_cell_def)
qed

lemma some_finite_sorted:
  assumes "some_finite vs"
  shows "sorted_values vs = map Num (sort (nums vs)) \<and> nums vs \<noteq> []"
proof -
  from assms have "\<And>b. Infty b \<notin> set vs"
    by (auto simp add: some_finite_def list_all_iff finite_cell_def)
  then have "\<And>b. count_list vs (Infty b) = 0" by (simp add: count_list_0_iff)
  moreover from assms have "nums vs \<noteq> []" by (simp add: some_finite_def nums_nonempty)
  ultimately show ?thesis by (simp add: sorted_values_def)
qed

lemma mean2_num: "mean2 nm (Num a) (Num b) \<noteq> NaN"
  by (simp add: mean2_def split: option.splits)

lemma median_some_finite:
  assumes "some_finite vs"
  shows "median nm vs \<noteq> NaN"
proof -
  let ?xs = "sort (nums vs)"
  let ?n = "length ?xs"
  from some_finite_sorted [OF assms] have
    s: "sorted_values vs = map Num ?xs" and n: "nums vs \<noteq> []"
    by simp_all
  from n have p: "0 < ?n" by simp
  then have 1: "map Num ?xs ! (?n div 2) = Num (?xs ! (?n div 2))" by simp
  from p have "?n div 2 - 1 < ?n" by arith
  then have 2: "map Num ?xs ! (?n div 2 - 1) = Num (?xs ! (?n div 2 - 1))" by simp
  have "median nm vs =
      (if odd ?n then map Num ?xs ! (?n div 2)
       else mean2 nm (map Num ?xs ! (?n div 2 - 1)) (map Num ?xs ! (?n div 2)))"
    using n by (simp add: median_def Let_def s sort_eq_Nil)
  then show ?thesis by (simp only: 1 2) (simp add: mean2_num)
qed

lemma filled_nan_iff: "NaN \<in> set (filled nm vs) \<longleftrightarrow> NaN \<in> set vs \<and> median nm vs = NaN"
  by (auto simp add: filled_def fillna_def)

lemma filled_no_str: "\<not> list_ex is_str vs \<Longrightarrow> \<not> list_ex is_str (filled nm vs)"
proof -
  assume a: "\<not> list_ex is_str vs"
  have "\<not> is_str (median nm vs)" using median_not_str [of nm vs] by (cases "median nm vs") auto
  with a show ?thesis by (auto simp add: filled_def fillna_def list_ex_iff)
qed

lemma length_filled: "length (filled nm vs) = length vs"
  by (simp add: filled_def fillna_def)

lemma astype_int_ok:
  "list_all finite_cell vs \<Longrightarrow> astype_int nm vs = Inr (map (int_cell nm) vs)"
proof (induction vs)
  case Nil
  then show ?case by simp
next
  case (Cons v vs)
  then show ?case by (cases v) (auto simp add: int_cell_def finite_cell_def)
qed

lemma astype_int_fail:
  "\<not> list_ex is_str vs \<Longrightarrow> \<not> list_all finite_cell vs \<Longrightarrow>
   astype_int nm vs = Inl IntCastingNaNError"
proof (induction vs)
  case Nil
  then show ?case by simp
next
  case (Cons v vs)
  then show ?case by (cases v) (auto simp add: finite_cell_def)
qed

lemma impute_int_char:
  assumes "\<not> list_ex is_str (get_col df c)"
  shows "impute_int nm c df =
     (if list_all finite_cell (filled nm (get_col df c))
      then Inr (assign_col c (map (int_cell nm) (filled nm (get_col df c))) df)
      else Inl IntCastingNaNError)"
proof (cases "list_all finite_cell (filled nm (get_col df c))")
  case True
  from astype_int_ok [OF this] True show ?thesis by (simp add: impute_int_def filled_def)
next
  case False
  from astype_int_fail [OF filled_no_str [OF assms] this] False
  show ?thesis by (simp add: impute_int_def filled_def)
qed

lemma trunc_of_int: "trunc (of_int k) = k"
  by (simp add: trunc_def)

lemma int_valued_int_cell: "finite_cell v \<Longrightarrow> int_valued (int_cell nm v)"
  by (cases v) (simp_all add: finite_cell_def int_cell_def int_valued_def trunc_of_int)

lemma int_valued_cast: "list_all finite_cell vs \<Longrightarrow> list_all int_valued (map (int_cell nm) vs)"
  by (simp add: list_all_iff int_valued_int_cell)

lemma int_valued_no_nan: "list_all int_valued vs \<Longrightarrow> NaN \<notin> set vs"
  by (auto simp add: list_all_iff int_valued_def)

lemma nums_all_missing: "set vs \<subseteq> {NaN} \<Longrightarrow> nums vs = []"
  by (induction vs) auto

lemma median_all_missing:
  assumes "\<not> list_ex finite_cell vs" and "list_all (\<lambda>v. v = NaN \<or> finite_cell v) vs"
  shows "median nm vs = NaN"
proof -
  from assms have a: "\<And>v. v \<in> set vs \<Longrightarrow> v = NaN" by (auto simp add: list_all_iff list_ex_iff)
  then have "\<And>b. Infty b \<notin> set vs" by auto
  then have c: "\<And>b. count_list vs (Infty b) = 0" by (simp add: count_list_0_iff)
  from a have "nums vs = []" by (intro nums_all_missing) auto
  with c have "sorted_values vs = []" by (simp add: sorted_values_def)
  then show ?thesis by (simp add: median_def)
qed

lemma filled_finite_iff:
  "list_all finite_cell (filled nm vs) \<longleftrightarrow>
     (vs = [] \<or> some_finite vs) \<and> (NaN \<in> set vs \<longrightarrow> finite_cell (median nm vs))"
proof
  assume f: "list_all finite_cell (filled nm vs)"
  have n: "\<not> finite_cell NaN" by (simp add: finite_cell_def)
  from f have a: "list_all (\<lambda>v. v = NaN \<or> finite_cell v) vs"
    by (auto simp add: filled_def fillna_def list_all_iff split: if_splits)
  from f have m: "NaN \<in> set vs \<longrightarrow> finite_cell (median nm vs)"
    by (auto simp add: filled_def fillna_def list_all_iff split: if_splits)
  have "vs = [] \<or> list_ex finite_cell vs"
  proof (rule ccontr)
    assume "\<not> (vs = [] \<or> list_ex finite_cell vs)"
    then have e: "vs \<noteq> []" and x: "\<not> list_ex finite_cell vs" by simp_all
    from median_all_missing [OF x a] have "median nm vs = NaN" .
    moreover from e x a have "NaN \<in> set vs"
      by (cases vs) (auto simp add: list_all_iff list_ex_iff)
    ultimately show False using m n by simp
  qed
  with a m show "(vs = [] \<or> some_finite vs) \<and> (NaN \<in> set vs \<longrightarrow> finite_cell (median nm vs))"
    by (simp add: some_finite_def)
next
  assume "(vs = [] \<or> some_finite vs) \<and> (NaN \<in> set vs \<longrightarrow> finite_cell (median nm vs))"
  then show "list_all finite_cell (filled nm vs)"
    by (auto simp add: filled_def fillna_def list_all_iff some_finite_def)
qed

lemma castable_iff:
  "castable nm df c \<longleftrightarrow>
     (c \<in> set (columns df) \<longrightarrow> list_all finite_cell (filled nm (coerced nm df c)))"
  by (simp only: castable_def filled_finite_iff)

lemma prepare_result:
  assumes "rect df"
  shows "\<exists>d. prepare nm df =
       (if repeated df ''metadata'' \<or> repeated df ''duration'' \<or> repeated df ''year''
        then Inl TypeError
        else if castable nm df ''duration'' \<and> castable nm df ''year'' then Inr d
        else Inl IntCastingNaNError) \<and>
     (\<not> (repeated df ''metadata'' \<or> repeated df ''duration'' \<or> repeated df ''year'') \<longrightarrow>
        columns d = columns df \<and>
        (''metadata'' \<in> set (columns df) \<longrightarrow>
           get_col d ''metadata'' = filled nm (coerced nm df ''metadata'')) \<and>
        (''duration'' \<in> set (columns df) \<longrightarrow>
           get_col d ''duration'' = map (int_cell nm) (filled nm (coerced nm df ''duration''))) \<and>
        (''year'' \<in> set (columns df) \<longrightarrow>
           get_col d ''year'' = map (int_cell nm) (filled nm (coerced nm df ''year''))))"
proof (cases "repeated df ''metadata'' \<or> repeated df ''duration'' \<or> repeated df ''year''")
  case True
  then have "\<exists>c \<in> set [''metadata'', ''duration'', ''year'']. repeated df c" by simp
  from coerce_numeric_repeated [OF this] have "prepare nm df = Inl TypeError"
    by (simp add: prepare_def)
  with True show ?thesis by simp
next
  case False
  let ?M = "''metadata''" and ?D = "''duration''" and ?Y = "''year''"
  have "distinct [?M, ?D, ?Y]" by simp
  moreover from False have "\<forall>c \<in> set [?M, ?D, ?Y]. \<not> repeated df c" by simp
  ultimately obtain df0 where
    e0: "coerce_numeric nm df [?M, ?D, ?Y] = Inr df0" and
    c0: "columns df0 = columns df" and r0: "rect df0" and
    l0: "length (rows df0) = length (rows df)" and
    g0: "\<And>c. get_col df0 c =
      (if c \<in> set [?M, ?D, ?Y] \<and> c \<in> set (columns df) then coerced nm df c else get_col df c)"
    using coerce_numeric_props [OF assms, of "[?M, ?D, ?Y]" nm] by blast
  define df1 where "df1 = (if ?M \<in> set (columns df0)
      then assign_col ?M (filled nm (get_col df0 ?M)) df0 else df0)"
  have c1: "columns df1 = columns df" by (simp add: df1_def c0 columns_assign_col)
  have r1: "rect df1" using r0 by (simp add: df1_def rect_assign_col)
  have l1: "length (rows df1) = length (rows df)"
    by (simp add: df1_def l0 length_rows_assign_col length_filled length_get_col)
  have m1: "?M \<in> set (columns df) \<Longrightarrow> get_col df1 ?M = filled nm (coerced nm df ?M)"
    using r0
    by (simp add: df1_def c0 g0 l0 get_col_assign_same length_filled length_coerced)
  have o1: "\<And>c. c \<noteq> ?M \<Longrightarrow> get_col df1 c = get_col df0 c"
    by (simp add: df1_def get_col_assign_other length_filled length_get_col)
  define df2 where "df2 = (if ?D \<in> set (columns df1)
      then assign_col ?D (map (int_cell nm) (filled nm (get_col df1 ?D))) df1 else df1)"
  have s2: "(if ?D \<in> set (columns df1) then impute_int nm ?D df1 else Inr df1)
      = (if castable nm df ?D then Inr df2 else Inl IntCastingNaNError)"
  proof (cases "?D \<in> set (columns df)")
    case True
    have g: "get_col df1 ?D = coerced nm df ?D" using True by (simp add: o1 g0)
    then have "\<not> list_ex is_str (get_col df1 ?D)" by (simp add: coerced_no_str)
    from impute_int_char [OF this, of nm] True show ?thesis
      by (simp add: df2_def c1 castable_iff g)
  next
    case False
    then show ?thesis by (simp add: df2_def c1 castable_iff)
  qed
  have c2: "columns df2 = columns df" by (simp add: df2_def c1 columns_assign_col)
  have r2: "rect df2" using r1 by (simp add: df2_def rect_assign_col)
  have l2: "length (rows df2) = length (rows df)"
    by (simp add: df2_def l1 length_rows_assign_col length_filled length_get_col)
  have d2: "?D \<in> set (columns df) \<Longrightarrow>
      get_col df2 ?D = map (int_cell nm) (filled nm (coerced nm df ?D))"
    using r1
    by (simp add: df2_def c1 o1 g0 l1 get_col_assign_same length_filled length_coerced)
  have o2: "\<And>c. c \<noteq> ?D \<Longrightarrow> get_col df2 c = get_col df1 c"
    by (simp add: df2_def get_col_assign_other length_filled length_get_col)
  define df3 where "df3 = (if ?Y \<in> set (columns df2)
      then assign_col ?Y (map (int_cell nm) (filled nm (get_col df2 ?Y))) df2 else df2)"
  have s3: "(if ?Y \<in> set (columns df2) then impute_int nm ?Y df2 else Inr df2)
      = (if castable nm df ?Y then Inr df3 else Inl IntCastingNaNError)"
  proof (cases "?Y \<in> set (columns df)")
    case True
    have g: "get_col df2 ?Y = coerced nm df ?Y" using True by (simp add: o2 o1 g0)
    then have "\<not> list_ex is_str (get_col df2 ?Y)" by (simp add: coerced_no_str)
    from impute_int_char [OF this, of nm] True show ?thesis
      by (simp add: df3_def c2 castable_iff g)
  next
    case False
    then show ?thesis by (simp add: df3_def c2 castable_iff)
  qed
  have c3: "columns df3 = columns df" by (simp add: df3_def c2 columns_assign_col)
  have y3: "?Y \<in> set (columns df) \<Longrightarrow>
      get_col df3 ?Y = map (int_cell nm) (filled nm (coerced nm df ?Y))"
    using r2
    by (simp add: df3_def c2 o2 o1 g0 l2 get_col_assign_same length_filled length_coerced)
  have o3: "\<And>c. c \<noteq> ?Y \<Longrightarrow> get_col df3 c = get_col df2 c"
    by (simp add: df3_def get_col_assign_other length_filled length_get_col)
  have "prepare nm df = impute_and_cast nm df0"
    by (simp only: prepare_def e0 sum.case)
  also have "\<dots> = (case (if ?D \<in> set (columns df1) then impute_int nm ?D df1 else Inr df1) of
        Inl e \<Rightarrow> Inl e
      | Inr d \<Rightarrow> (if ?Y \<in> set (columns d) then impute_int nm ?Y d else Inr d))"
    by (simp only: impute_and_cast_def Let_def df1_def filled_def)
  also have "\<dots> = (if castable nm df ?D
      then (if ?Y \<in> set (columns df2) then impute_int nm ?Y df2 else Inr df2)
      else Inl IntCastingNaNError)"
    by (simp only: s2) simp
  also have "\<dots> = (if castable nm df ?D \<and> castable nm df ?Y then Inr df3
      else Inl IntCastingNaNError)"
    by (simp only: s3) simp
  finally have p: "prepare nm df = (if castable nm df ?D \<and> castable nm df ?Y then Inr df3
      else Inl IntCastingNaNError)" .
  have "get_col df3 ?M = get_col df1 ?M" by (simp add: o3 o2)
  moreover have "get_col df3 ?D = get_col df2 ?D" by (simp add: o3)
  ultimately show ?thesis
    using p c3 m1 d2 y3 False by (intro exI [of _ df3]) simp
qed

text \<open>
  Claim C4, as amended. On a rectangular frame, coercion and imputation (one turn of the
  loop of lines 84-86) run to their end exactly when none of the labels \<open>metadata\<close>,
  \<open>duration\<close> and \<open>year\<close> is repeated and the columns \<open>duration\<close> and \<open>year\<close>, where present,
  can be cast: coerced, the column has no cells, or it holds finite numbers and missing
  cells with at least one finite number, and its median is finite if a cell is missing.
  A repeated label raises TypeError, a column that cannot be cast raises
  IntCastingNaNError. When they run to their end, the labels are kept, and
  \<^item> \<open>metadata\<close> is its coerced column with the missing cells filled by the median of that
    column, uncast; a missing value is left in it exactly when the coerced column has a
    missing cell and no median, and none is left when the coerced column holds finite
    numbers and missing cells with at least one finite number;
  \<^item> \<open>duration\<close> and \<open>year\<close> are their coerced columns filled by the median of that column
    and cast to 64-bit integers; they hold whole numbers and no missing value.
\<close>

theorem imputation_leaves_no_missing:
  assumes "rect df"
  shows "((\<exists>df'. prepare nm df = Inr df') \<longleftrightarrow>
            \<not> repeated df ''metadata'' \<and> \<not> repeated df ''duration'' \<and> \<not> repeated df ''year'' \<and>
            castable nm df ''duration'' \<and> castable nm df ''year'') \<and>
         (repeated df ''metadata'' \<or> repeated df ''duration'' \<or> repeated df ''year'' \<longrightarrow>
            prepare nm df = Inl TypeError) \<and>
         (\<not> repeated df ''metadata'' \<and> \<not> repeated df ''duration'' \<and> \<not> repeated df ''year'' \<and>
          \<not> (castable nm df ''duration'' \<and> castable nm df ''year'') \<longrightarrow>
            prepare nm df = Inl IntCastingNaNError) \<and>
         (\<forall>df'. prepare nm df = Inr df' \<longrightarrow>
            columns df' = columns df \<and>
            (''metadata'' \<in> set (columns df) \<longrightarrow>
               get_col df' ''metadata'' = filled nm (coerced nm df ''metadata'') \<and>
               (NaN \<in> set (get_col df' ''metadata'') \<longleftrightarrow>
                  NaN \<in> set (coerced nm df ''metadata'') \<and>
                  median nm (coerced nm df ''metadata'') = NaN) \<and>
               (some_finite (coerced nm df ''metadata'') \<longrightarrow>
                  NaN \<notin> set (get_col df' ''metadata''))) \<and>
            (''duration'' \<in> set (columns df) \<longrightarrow>
               get_col df' ''duration''
                 = map (int_cell nm) (filled nm (coerced nm df ''duration'')) \<and>
               list_all int_valued (get_col df' ''duration'') \<and>
               NaN \<notin> set (get_col df' ''duration'')) \<and>
            (''year'' \<in> set (columns df) \<longrightarrow>
               get_col df' ''year'' = map (int_cell nm) (filled nm (coerced nm df ''year'')) \<and>
               list_all int_valued (get_col df' ''year'') \<and>
               NaN \<notin> set (get_col df' ''year'')))"
proof -
  let ?M = "''metadata''" and ?D = "''duration''" and ?Y = "''year''"
  let ?rep = "repeated df ?M \<or> repeated df ?D \<or> repeated df ?Y"
  let ?cast = "castable nm df ?D \<and> castable nm df ?Y"
  from prepare_result [OF assms, of nm] obtain d where
    p: "prepare nm df = (if ?rep then Inl TypeError
          else if ?cast then Inr d else Inl IntCastingNaNError)" and
    q: "\<not> ?rep \<longrightarrow> columns d = columns df \<and>
        (?M \<in> set (columns df) \<longrightarrow> get_col d ?M = filled nm (coerced nm df ?M)) \<and>
        (?D \<in> set (columns df) \<longrightarrow>
          get_col d ?D = map (int_cell nm) (filled nm (coerced nm df ?D))) \<and>
        (?Y \<in> set (columns df) \<longrightarrow>
          get_col d ?Y = map (int_cell nm) (filled nm (coerced nm df ?Y)))"
    by blast
  have 1: "(\<exists>df'. prepare nm df = Inr df') \<longleftrightarrow> \<not> ?rep \<and> ?cast" by (simp add: p)
  have 2: "?rep \<longrightarrow> prepare nm df = Inl TypeError" by (simp add: p)
  have 3: "\<not> ?rep \<and> \<not> ?cast \<longrightarrow> prepare nm df = Inl IntCastingNaNError" by (simp add: p)
  have 4: "columns df' = columns df \<and>
            (?M \<in> set (columns df) \<longrightarrow>
               get_col df' ?M = filled nm (coerced nm df ?M) \<and>
               (NaN \<in> set (get_col df' ?M) \<longleftrightarrow>
                  NaN \<in> set (coerced nm df ?M) \<and> median nm (coerced nm df ?M) = NaN) \<and>
               (some_finite (coerced nm df ?M) \<longrightarrow> NaN \<notin> set (get_col df' ?M))) \<and>
            (?D \<in> set (columns df) \<longrightarrow>
               get_col df' ?D = map (int_cell nm) (filled nm (coerced nm df ?D)) \<and>
               list_all int_valued (get_col df' ?D) \<and> NaN \<notin> set (get_col df' ?D)) \<and>
            (?Y \<in> set (columns df) \<longrightarrow>
               get_col df' ?Y = map (int_cell nm) (filled nm (coerced nm df ?Y)) \<and>
               list_all int_valued (get_col df' ?Y) \<and> NaN \<notin> set (get_col df' ?Y))"
    if h: "prepare nm df = Inr df'" for df'
  proof -
    from h p have ok: "\<not> ?rep" "?cast" and e: "df' = d"
      by (auto split: if_splits)
    from q ok(1) have
      c: "columns d = columns df" and
      m: "?M \<in> set (columns df) \<longrightarrow> get_col d ?M = filled nm (coerced nm df ?M)" and
      du: "?D \<in> set (columns df) \<longrightarrow>
            get_col d ?D = map (int_cell nm) (filled nm (coerced nm df ?D))" and
      y: "?Y \<in> set (columns df) \<longrightarrow>
            get_col d ?Y = map (int_cell nm) (filled nm (coerced nm df ?Y))"
      by blast+
    have a: "?M \<in> set (columns df) \<longrightarrow>
               get_col d ?M = filled nm (coerced nm df ?M) \<and>
               (NaN \<in> set (get_col d ?M) \<longleftrightarrow>
                  NaN \<in> set (coerced nm df ?M) \<and> median nm (coerced nm df ?M) = NaN) \<and>
               (some_finite (coerced nm df ?M) \<longrightarrow> NaN \<notin> set (get_col d ?M))"
      using m median_some_finite [of "coerced nm df ?M" nm]
      by (simp add: filled_nan_iff)
    have b: "?D \<in> set (columns df) \<longrightarrow>
               get_col d ?D = map (int_cell nm) (filled nm (coerced nm df ?D)) \<and>
               list_all int_valued (get_col d ?D) \<and> NaN \<notin> set (get_col d ?D)"
    proof
      assume i: "?D \<in> set (columns df)"
      with ok(2) have "list_all finite_cell (filled nm (coerced nm df ?D))"
        by (simp add: castable_iff)
      from int_valued_cast [OF this, of nm] int_valued_no_nan du i
      show "get_col d ?D = map (int_cell nm) (filled nm (coerced nm df ?D)) \<and>
               list_all int_valued (get_col d ?D) \<and> NaN \<notin> set (get_col d ?D)"
        by (simp del: set_map)
    qed
    have f: "?Y \<in> set (columns df) \<longrightarrow>
               get_col d ?Y = map (int_cell nm) (filled nm (coerced nm df ?Y)) \<and>
               list_all int_valued (get_col d ?Y) \<and> NaN \<notin> set (get_col d ?Y)"
    proof
      assume i: "?Y \<in> set (columns df)"
      with ok(2) have "list_all finite_cell (filled nm (coerced nm df ?Y))"
        by (simp add: castable_iff)
      from int_valued_cast [OF this, of nm] int_valued_no_nan y i
      show "get_col d ?Y = map (int_cell nm) (filled nm (coerced nm df ?Y)) \<and>
               list_all int_valued (get_col d ?Y) \<and> NaN \<notin> set (get_col d ?Y)"
        by (simp del: set_map)
    qed
    from c a b f show ?thesis by (simp only: e)
  qed
  from 1 2 3 4 show ?thesis by blast
qed

text \<open>
  Claim C4 as stated fails. A score column with rows and no parseable value has no
  median: it stays missing throughout. A year column of that kind cannot be cast, and
  neither can one that holds an infinity beside a parseable year: the cast raises.
\<close>

theorem imputation_counterexample:
  "prepare ex_numerics ex_unrated
   = Inr \<lparr>columns = [''title'', ''metadata''], rows = [[Str ''A'', NaN], [Str ''B'', NaN]]\<rparr> \<and>
   get_col \<lparr>columns = [''title'', ''metadata''], rows = [[Str ''A'', NaN], [Str ''B'', NaN]]\<rparr>
     ''metadata'' = [NaN, NaN] \<and>
   prepare ex_numerics ex_undated = Inl IntCastingNaNError \<and>
   prepare ex_numerics
     \<lparr>columns = [''title'', ''year''], rows = [[Str ''A'', Str ''inf''], [Str ''B'', Num 2000]]\<rparr>
   = Inl IntCastingNaNError"
  by code_simp

theorem imputation_leaves_no_missing_witness:
  "rect ex_raw \<and>
   prepare ex_numerics ex_raw
   = Inr \<lparr>columns = [''title'', ''year'', ''duration'', ''metadata''],
      rows = [[Str ''A'', Num 1990, Num 90, Num 7],
              [Str ''B'', Num 2001, Num 98, Num (15 / 2)],
              [Str ''C'', Num 2000, Num 101, Num 9],
              [Str ''D'', Num 2001, Num 140, Num (15 / 2)],
              [Str ''E'', Num 2005, Num 96, Num 5],
              [Str ''F'', Num 2020, Num 98, Num 8]]\<rparr> \<and>
   castable ex_numerics ex_raw ''duration'' \<and> castable ex_numerics ex_raw ''year'' \<and>
   filled ex_numerics (coerced ex_numerics ex_raw ''duration'')
   = [Num 90, Num (197 / 2), Num 101, Num 140, Num 96, Num (197 / 2)] \<and>
   list_all int_valued [Num 1990, Num 2001, Num 2000, Num 2001, Num 2005, Num 2020] \<and>
   prepare ex_numerics \<lparr>columns = [''year''], rows = [[Num 10000000000000000000]]\<rparr>
   = Inr \<lparr>columns = [''year''], rows = [[Num (- 9223372036854775808)]]\<rparr>"
proof -
  let ?r = "\<lparr>columns = [''title'', ''year'', ''duration'', ''metadata''],
      rows = [[Str ''A'', Num 1990, Num 90, Num 7],
              [Str ''B'', Num 2001, Num 98, Num (15 / 2)],
              [Str ''C'', Num 2000, Num 101, Num 9],
              [Str ''D'', Num 2001, Num 140, Num (15 / 2)],
              [Str ''E'', Num 2005, Num 96, Num 5],
              [Str ''F'', Num 2020, Num 98, Num 8]]\<rparr>"
  have h: "rect ex_raw" by code_simp
  have e: "prepare ex_numerics ex_raw = Inr ?r" by code_simp
  have f: "filled ex_numerics (coerced ex_numerics ex_raw ''duration'')
      = [Num 90, Num (197 / 2), Num 101, Num 140, Num 96, Num (197 / 2)]" by code_simp
  have i: "''year'' \<in> set (columns ex_raw)" by code_simp
  have o: "prepare ex_numerics \<lparr>columns = [''year''], rows = [[Num 10000000000000000000]]\<rparr>
      = Inr \<lparr>columns = [''year''], rows = [[Num (- 9223372036854775808)]]\<rparr>" by code_simp
  have g: "get_col ?r ''year'' = [Num 1990, Num 2001, Num 2000, Num 2001, Num 2005, Num 2020]"
    by code_simp
  note t = imputation_leaves_no_missing [OF h, of ex_numerics]
  from t e have c: "castable ex_numerics ex_raw ''duration'' \<and> castable ex_numerics ex_raw ''year''"
    by blast
  from t e i have "list_all int_valued (get_col ?r ''year'')" by blast
  then have "list_all int_valued [Num 1990, Num 2001, Num 2000, Num 2001, Num 2005, Num 2020]"
    by (simp only: g)
  with h e c f o show ?thesis by blast
qed

section \<open>Resolving the year after a join\<close>

lemma cell_of_append_last:
  "c \<notin> set cs \<Longrightarrow> length r = length cs \<Longrightarrow> cell_of (cs @ [c]) c (r @ [v]) = v"
  by (simp add: cell_of_def map_add_def map_of_zip_is_None [THEN iffD2] split: option.splits)

lemma cell_of_append_front:
  "c \<noteq> c' \<Longrightarrow> length r = length cs \<Longrightarrow> cell_of (cs @ [c']) c (r @ [v]) = cell_of cs c r"
  by (auto simp add: cell_of_def map_add_def split: option.splits
        dest!: map_of_SomeD set_zip_leftD)

lemma map_of_zip_map_inj:
  "inj_on f (insert c (set cs)) \<Longrightarrow> map_of (zip (map f cs) r) (f c) = map_of (zip cs r) c"
proof (induction cs arbitrary: r)
  case Nil
  then show ?case by simp
next
  case (Cons a cs)
  show ?case
  proof (cases r)
    case Nil
    then show ?thesis by simp
  next
    case (Cons v vs)
    from Cons.prems have i: "inj_on f (insert c (set cs))"
      by (rule inj_on_subset) auto
    from Cons.prems have "f a = f c \<longleftrightarrow> a = c"
      by (auto simp add: inj_on_def)
    with Cons Cons.IH [OF i, of vs] show ?thesis by auto
  qed
qed

lemma zip_filter_fst:
  "length r = length cs \<Longrightarrow>
   zip (filter k cs) (map snd (filter (\<lambda>(c, v). k c) (zip cs r))) = filter (\<lambda>(c, v). k c) (zip cs r)"
proof (induction cs arbitrary: r)
  case Nil
  then show ?case by simp
next
  case (Cons a cs)
  then show ?case by (cases r) auto
qed

lemma map_of_filter_key:
  "k c \<Longrightarrow> map_of (filter (\<lambda>(c, v). k c) xs) c = map_of xs c"
  by (induction xs) auto

lemma cell_of_dropped:
  "k c \<Longrightarrow> length r = length cs \<Longrightarrow>
   cell_of (filter k cs) c (map snd (filter (\<lambda>(c, v). k c) (zip cs r))) = cell_of cs c r"
  by (simp add: cell_of_def zip_filter_fst map_of_filter_key)

lemma map_zip_rows:
  "length vs = length rs \<Longrightarrow> map (\<lambda>(r, v). v) (zip rs vs) = vs"
  by (simp add: case_prod_unfold)

lemma map_zip_rows_fst:
  "length vs = length rs \<Longrightarrow> map (\<lambda>(r, v). f r) (zip rs vs) = map f rs"
proof (induction rs arbitrary: vs)
  case Nil
  then show ?case by simp
next
  case (Cons r rs)
  then show ?case by (cases vs) auto
qed

text \<open>The frame after the coalesced column is assigned and the two candidates are dropped.\<close>

lemma resolved_frame:
  assumes r: "rect m" and y: "''year'' \<notin> set (columns m)" and l: "length cs = length (rows m)"
  defines "d \<equiv> drop_cols [''year_x'', ''year_y''] (assign_col ''year'' cs m)"
  shows "columns d = filter (\<lambda>c. c \<notin> set [''year_x'', ''year_y'']) (columns m) @ [''year'']"
    and "get_col d ''year'' = cs"
    and "\<And>c. c \<noteq> ''year'' \<Longrightarrow> c \<notin> set [''year_x'', ''year_y''] \<Longrightarrow> get_col d c = get_col m c"
proof -
  let ?k = "\<lambda>c. c \<notin> set [''year_x'', ''year_y'']"
  let ?C = "columns m @ [''year'']"
  have a: "assign_col ''year'' cs m =
      \<lparr>columns = ?C, rows = map (\<lambda>(r, v). r @ [v]) (zip (rows m) cs)\<rparr>"
    using y by (simp add: assign_col_def)
  show c: "columns d = filter ?k (columns m) @ [''year'']"
    by (simp add: d_def a drop_cols_def)
  have len: "\<And>r v. (r, v) \<in> set (zip (rows m) cs) \<Longrightarrow> length r = length (columns m)"
    using r by (auto simp add: rect_def list_all_iff dest: set_zip_leftD)
  have cell: "\<And>c r v. ?k c \<Longrightarrow> (r, v) \<in> set (zip (rows m) cs) \<Longrightarrow>
      cell_of (filter ?k ?C) c (map snd (filter (\<lambda>(c, v). ?k c) (zip ?C (r @ [v]))))
      = cell_of ?C c (r @ [v])"
    using len by (intro cell_of_dropped) simp_all
  have g: "\<And>c. ?k c \<Longrightarrow> get_col d c = map (\<lambda>(r, v). cell_of ?C c (r @ [v])) (zip (rows m) cs)"
    unfolding get_col_def d_def a drop_cols_def using cell
    by (auto simp add: comp_def case_prod_unfold)
  have "map (\<lambda>(r, v). cell_of ?C ''year'' (r @ [v])) (zip (rows m) cs)
      = map (\<lambda>(r, v). v) (zip (rows m) cs)"
    by (rule map_cong [OF refl]) (use y len in \<open>auto simp add: cell_of_append_last\<close>)
  then have "get_col d ''year'' = map (\<lambda>(r, v). v) (zip (rows m) cs)"
    by (simp add: g)
  then show "get_col d ''year'' = cs" using l by (simp add: map_zip_rows)
  fix c :: string assume n: "c \<noteq> ''year''" and k: "c \<notin> set [''year_x'', ''year_y'']"
  have "map (\<lambda>(r, v). cell_of ?C c (r @ [v])) (zip (rows m) cs)
      = map (\<lambda>(r, v). cell_of (columns m) c r) (zip (rows m) cs)"
    by (rule map_cong [OF refl]) (use n len in \<open>auto simp add: cell_of_append_front\<close>)
  then have "get_col d c = map (\<lambda>(r, v). cell_of (columns m) c r) (zip (rows m) cs)"
    using k by (simp add: g)
  then show "get_col d c = get_col m c"
    using l by (simp add: map_zip_rows_fst get_col_def)
qed

lemma merge_year_rows:
  "m \<in> set (rows (merge_year t left right)) \<Longrightarrow> \<exists>l y. l \<in> set (rows left) \<and> m = l @ [y]"
  by (auto simp add: merge_year_def Let_def split: if_splits)

lemma merge_year_columns_clash:
  "''year'' \<in> set (columns left) \<Longrightarrow>
   columns (merge_year t left right) =
     map (\<lambda>c. if c = ''year'' then ''year_x'' else c) (columns left) @ [''year_y'']"
  by (simp add: merge_year_def)

lemma rect_merge_year: "rect left \<Longrightarrow> rect (merge_year t left right)"
  unfolding rect_def list_all_iff
proof
  fix m assume r: "\<forall>l \<in> set (rows left). length l = length (columns left)"
    and m: "m \<in> set (rows (merge_year t left right))"
  from merge_year_rows [OF m] obtain l y where "l \<in> set (rows left)" "m = l @ [y]" by blast
  with r have "length m = Suc (length (columns left))" by simp
  moreover have "length (columns (merge_year t left right)) = Suc (length (columns left))"
    by (simp add: merge_year_def)
  ultimately show "length m = length (columns (merge_year t left right))" by simp
qed

lemma merge_year_candidates:
  assumes "rect left" and "''year'' \<in> set (columns left)"
    and "''year_x'' \<notin> set (columns left)" and "''year_y'' \<notin> set (columns left)"
  shows "candidates left (merge_year t left right)"
proof -
  let ?ren = "\<lambda>c. if c = ''year'' then ''year_x'' else c"
  let ?j = "merge_year t left right"
  let ?cols = "columns left"
  have c: "columns ?j = map ?ren ?cols @ [''year_y'']"
    using assms(2) by (rule merge_year_columns_clash)
  have ny: "''year_y'' \<notin> set (map ?ren ?cols)" using assms(4) by auto
  have inj: "inj_on ?ren (insert ''year'' (set ?cols))"
    using assms(3) by (auto simp add: inj_on_def)
  have row: "\<And>m. m \<in> set (rows ?j) \<Longrightarrow>
      cell_of (columns ?j) ''year_y'' m = last m \<and>
      cell_of (columns ?j) ''year_x'' m = cell_of ?cols ''year'' (butlast m)"
  proof -
    fix m assume "m \<in> set (rows ?j)"
    from merge_year_rows [OF this] obtain l y where l: "l \<in> set (rows left)" and m: "m = l @ [y]"
      by blast
    from l assms(1) have len: "length l = length (map ?ren ?cols)"
      by (simp add: rect_def list_all_iff)
    have "cell_of (map ?ren ?cols) (?ren ''year'') l = cell_of ?cols ''year'' l"
      unfolding cell_of_def using map_of_zip_map_inj [OF inj, of l] by simp
    then have "cell_of (map ?ren ?cols @ [''year_y'']) ''year_x'' (l @ [y]) = cell_of ?cols ''year'' l"
      using len by (simp add: cell_of_append_front)
    moreover have "cell_of (map ?ren ?cols @ [''year_y'']) ''year_y'' (l @ [y]) = y"
      using ny len by (rule cell_of_append_last)
    ultimately show "cell_of (columns ?j) ''year_y'' m = last m \<and>
      cell_of (columns ?j) ''year_x'' m = cell_of ?cols ''year'' (butlast m)"
      by (simp add: c m)
  qed
  then show ?thesis by (simp add: candidates_def get_col_def)
qed

lemma length_coalesce: "length ys = length xs \<Longrightarrow> length (coalesce ys xs) = length xs"
  by (simp add: coalesce_def)

lemma get_col_select_same:
  "get_col (select_rows (\<lambda>r. q (cell_of (columns df) c r)) df) c = filter q (get_col df c)"
  by (simp add: get_col_def select_rows_def filter_map comp_def)

lemma map_filter_zip:
  "map f (filter (\<lambda>r. q (g r)) rs) = map fst (filter (\<lambda>(a, v). q v) (zip (map f rs) (map g rs)))"
  by (induction rs) auto

lemma get_col_select_other:
  "get_col (select_rows (\<lambda>r. q (cell_of (columns df) c r)) df) c' =
     map fst (filter (\<lambda>(a, v). q v) (zip (get_col df c') (get_col df c)))"
  by (simp add: get_col_def select_rows_def map_filter_zip)

lemma attach_year_resolved:
  assumes "rect left" and "''year'' \<in> set (columns left)"
    and "''year_x'' \<notin> set (columns left)" and "''year_y'' \<notin> set (columns left)"
  shows "''year'' \<in> set (columns (unify_year (merge_year t left right))) \<and>
         (\<exists>d. dropna_subset ''year'' (unify_year (merge_year t left right)) = Inr d \<and>
              year_resolved (merge_year t left right) d)"
proof -
  let ?j = "merge_year t left right"
  let ?ys = "coalesce (get_col ?j ''year_y'') (get_col ?j ''year_x'')"
  let ?k = "\<lambda>c. c \<notin> set [''year_x'', ''year_y'']"
  define u where "u = drop_cols [''year_x'', ''year_y''] (assign_col ''year'' ?ys ?j)"
  have c: "columns ?j = map (\<lambda>c. if c = ''year'' then ''year_x'' else c) (columns left) @ [''year_y'']"
    using assms(2) by (rule merge_year_columns_clash)
  have x: "''year_x'' \<in> set (columns ?j)" using assms(2) by (auto simp add: c)
  have y: "''year_y'' \<in> set (columns ?j)" by (simp add: c)
  have n: "''year'' \<notin> set (columns ?j)" by (auto simp add: c)
  have r: "rect ?j" using assms(1) by (rule rect_merge_year)
  have l: "length ?ys = length (rows ?j)" by (simp add: coalesce_def get_col_def)
  have uu: "unify_year ?j = u" using x y by (simp add: unify_year_def u_def)
  note f = resolved_frame [OF r n l, folded u_def]
  have cu: "columns u = filter ?k (columns ?j) @ [''year'']" by (rule f(1))
  then have yu: "''year'' \<in> set (columns u)" by simp
  define d where "d = select_rows (\<lambda>r. cell_of (columns u) ''year'' r \<noteq> NaN) u"
  have dd: "dropna_subset ''year'' u = Inr d" using yu by (simp add: dropna_subset_def d_def)
  have cd: "columns d = filter ?k (columns ?j) @ [''year'']"
    by (simp add: d_def select_rows_def cu)
  have 1: "count_list (columns d) ''year'' = 1" using n by (simp add: cd)
  have 2: "''year_x'' \<notin> set (columns d)" "''year_y'' \<notin> set (columns d)" by (simp_all add: cd)
  have 3: "get_col d ''year'' = filter (\<lambda>v. v \<noteq> NaN) ?ys"
    unfolding d_def
    using get_col_select_same [of "\<lambda>v. v \<noteq> NaN" u "''year''"] by (simp only: f(2))
  have 4: "NaN \<notin> set (get_col d ''year'')" by (simp add: 3)
  have 5: "\<And>c. c \<in> set (columns ?j) \<Longrightarrow> ?k c \<Longrightarrow>
      get_col d c = map fst (filter (\<lambda>(a, v). v \<noteq> NaN) (zip (get_col ?j c) ?ys))"
  proof -
    fix c assume "c \<in> set (columns ?j)" and k: "?k c"
    with n have "c \<noteq> ''year''" by auto
    from f(3) [OF this k] show
      "get_col d c = map fst (filter (\<lambda>(a, v). v \<noteq> NaN) (zip (get_col ?j c) ?ys))"
      unfolding d_def
      using get_col_select_other [of "\<lambda>v. v \<noteq> NaN" u "''year''" c] by (simp only: f(2))
  qed
  have "year_resolved ?j d"
    unfolding year_resolved_def Let_def list_all_iff using 1 2 3 4 5 by auto
  with dd yu uu show ?thesis by simp
qed

lemma rect_select_rows: "rect df \<Longrightarrow> rect (select_rows p df)"
  by (simp add: rect_def select_rows_def list_all_iff)

lemma dfc_top_of_frame:
  "columns (dfc_top_of vc dcast dff) = columns dcast \<and>
   (rect dcast \<longrightarrow> rect (dfc_top_of vc dcast dff))"
  by (simp add: dfc_top_of_def Let_def isin_rows_def titles_in_def rect_select_rows
      columns_select_rows)

text \<open>
  Claim C2. Let the movie frame have a title and a year column and let the genre and cast
  frames be joinable, so that each join yields the two candidates \<open>year_x\<close> and \<open>year_y\<close>.
  At each of the three sites (genre tab, cast tab, yearly-trends tab) the frame handed to
  the grouping or pivot is resolved: the year is the movie frame's value where present
  and the exploded frame's otherwise, both candidates are gone and exactly one column is
  called \<open>year\<close>, and the rows whose resolved year is missing are dropped. The
  yearly-trends tab always gets to its site; the genre tab and the cast tab get to theirs
  unless the bar chart before it (line 232, line 299) has raised, which it does when the
  filtered movies have no genre, or no cast member, at all.
\<close>

theorem year_collision_resolved:
  assumes "''title'' \<in> set (columns dc)" and "''year'' \<in> set (columns dc)"
    and "columns dff = columns dc"
    and "joinable ''genre'' dg" and "joinable ''cast'' dcast"
  shows
    "(\<exists>d. year_resolved (merge_year ''title'' dg (project2 ''title'' ''year'' dc)) d \<and>
          genre_tab_year_genre vc dc dg dff =
            (if has_values (get_col (titles_in ''title'' dff dg) ''genre'')
             then Inr (Some d) else Inl ValueError)) \<and>
     (\<exists>d. year_resolved
            (merge_year ''title'' (dfc_top_of vc dcast dff) (project2 ''title'' ''year'' dc)) d \<and>
          cast_tab_year_cast vc dc dcast dff =
            (if has_values (get_col (titles_in ''title'' dff dcast) ''cast'')
             then Inr (Some d) else Inl ValueError)) \<and>
     (\<exists>d. yearly_tab_year_genre dc dg dff = Some d \<and>
          year_resolved (merge_year ''title'' dg (project2 ''title'' ''year'' dc)) d) \<and>
     candidates dg (merge_year ''title'' dg (project2 ''title'' ''year'' dc)) \<and>
     candidates (dfc_top_of vc dcast dff)
       (merge_year ''title'' (dfc_top_of vc dcast dff) (project2 ''title'' ''year'' dc))"
proof -
  let ?R = "project2 ''title'' ''year'' dc"
  let ?T = "dfc_top_of vc dcast dff"
  from assms(4) have g: "rect dg" "''genre'' \<in> set (columns dg)" "''title'' \<in> set (columns dg)"
      "''year'' \<in> set (columns dg)" "''year_x'' \<notin> set (columns dg)"
      "''year_y'' \<notin> set (columns dg)"
    by (simp_all add: joinable_def)
  from assms(5) have c: "rect dcast" "''cast'' \<in> set (columns dcast)"
      "''title'' \<in> set (columns dcast)" "''year'' \<in> set (columns dcast)"
      "''year_x'' \<notin> set (columns dcast)" "''year_y'' \<notin> set (columns dcast)"
    by (simp_all add: joinable_def)
  from dfc_top_of_frame [of vc dcast dff] c have
    t: "rect ?T" "''year'' \<in> set (columns ?T)" "''year_x'' \<notin> set (columns ?T)"
      "''year_y'' \<notin> set (columns ?T)"
    by simp_all
  from attach_year_resolved [OF g(1) g(4) g(5) g(6), of "''title''" ?R] obtain d1 where
    u1: "''year'' \<in> set (columns (unify_year (merge_year ''title'' dg ?R)))" and
    d1: "dropna_subset ''year'' (unify_year (merge_year ''title'' dg ?R)) = Inr d1" and
    r1: "year_resolved (merge_year ''title'' dg ?R) d1"
    by blast
  from attach_year_resolved [OF t, of "''title''" ?R] obtain d2 where
    u2: "''year'' \<in> set (columns (unify_year (merge_year ''title'' ?T ?R)))" and
    d2: "dropna_subset ''year'' (unify_year (merge_year ''title'' ?T ?R)) = Inr d2" and
    r2: "year_resolved (merge_year ''title'' ?T ?R) d2"
    by blast
  have "genre_tab_year_genre vc dc dg dff =
      (if has_values (get_col (titles_in ''title'' dff dg) ''genre'')
       then Inr (Some d1) else Inl ValueError)"
    using assms(1-3) g d1
    by (simp add: genre_tab_year_genre_def title_col_def Let_def and_then_def px_bar_counts_def)
  moreover have "cast_tab_year_cast vc dc dcast dff =
      (if has_values (get_col (titles_in ''title'' dff dcast) ''cast'')
       then Inr (Some d2) else Inl ValueError)"
    using assms(1-3) c d2 u2
    by (simp add: cast_tab_year_cast_def title_col_def Let_def dfc_top_of_def and_then_def
          px_bar_counts_def)
  moreover have "yearly_tab_year_genre dc dg dff = Some d1"
    using assms(1-3) g d1 u1
    by (simp add: yearly_tab_year_genre_def title_col_def Let_def)
  moreover note r1 r2 merge_year_candidates [OF g(1) g(4) g(5) g(6), of "''title''" ?R]
    merge_year_candidates [OF t, of "''title''" ?R]
  ultimately show ?thesis by blast
qed

theorem year_collision_resolved_witness:
  "joinable ''genre'' ex_genres_y \<and> joinable ''cast'' ex_cast_y \<and>
   yearly_tab_year_genre ex_movies ex_genres_y ex_movies
   = Some \<lparr>columns = [''title'', ''genre'', ''year''],
       rows = [[Str ''A'', Str ''Drama'', Num 2000], [Str ''B'', Str ''Comedy'', Num 2001],
               [Str ''C'', Str ''Drama'', Num 1997]]\<rparr> \<and>
   genre_tab_year_genre value_counts_index ex_movies ex_genres_y ex_movies
   = Inr (Some \<lparr>columns = [''title'', ''genre'', ''year''],
       rows = [[Str ''A'', Str ''Drama'', Num 2000], [Str ''B'', Str ''Comedy'', Num 2001],
               [Str ''C'', Str ''Drama'', Num 1997]]\<rparr>) \<and>
   cast_tab_year_cast value_counts_index ex_movies ex_cast_y ex_movies
   = Inr (Some \<lparr>columns = [''title'', ''cast'', ''year''],
       rows = [[Str ''A'', Str ''X'', Num 2000], [Str ''A'', Str ''Y'', Num 2000],
               [Str ''B'', Str ''X'', Num 2001]]\<rparr>) \<and>
   year_resolved (merge_year ''title'' ex_genres_y (project2 ''title'' ''year'' ex_movies))
     \<lparr>columns = [''title'', ''genre'', ''year''],
       rows = [[Str ''A'', Str ''Drama'', Num 2000], [Str ''B'', Str ''Comedy'', Num 2001],
               [Str ''C'', Str ''Drama'', Num 1997]]\<rparr>"
proof -
  let ?r = "\<lparr>columns = [''title'', ''genre'', ''year''],
       rows = [[Str ''A'', Str ''Drama'', Num 2000], [Str ''B'', Str ''Comedy'', Num 2001],
               [Str ''C'', Str ''Drama'', Num 1997]]\<rparr>"
  let ?c = "\<lparr>columns = [''title'', ''cast'', ''year''],
       rows = [[Str ''A'', Str ''X'', Num 2000], [Str ''A'', Str ''Y'', Num 2000],
               [Str ''B'', Str ''X'', Num 2001]]\<rparr>"
  have h1: "''title'' \<in> set (columns ex_movies)" by (simp add: ex_movies_def)
  have h2: "''year'' \<in> set (columns ex_movies)" by (simp add: ex_movies_def)
  have h3: "columns ex_movies = columns ex_movies" by simp
  have h4: "joinable ''genre'' ex_genres_y" by code_simp
  have h5: "joinable ''cast'' ex_cast_y" by code_simp
  have e: "yearly_tab_year_genre ex_movies ex_genres_y ex_movies = Some ?r" by code_simp
  have eg: "genre_tab_year_genre value_counts_index ex_movies ex_genres_y ex_movies
      = Inr (Some ?r)" by code_simp
  have ec: "cast_tab_year_cast value_counts_index ex_movies ex_cast_y ex_movies
      = Inr (Some ?c)" by code_simp
  from year_collision_resolved [OF h1 h2 h3 h4 h5, of value_counts_index] obtain d where
    "yearly_tab_year_genre ex_movies ex_genres_y ex_movies = Some d" and
    y: "year_resolved (merge_year ''title'' ex_genres_y (project2 ''title'' ''year'' ex_movies)) d"
    by blast
  with e have "d = ?r" by simp
  with y h4 h5 e eg ec show ?thesis by blast
qed

section \<open>Further properties of the filter engine, the defaults and the join\<close>

lemma get_col_select_subset: "set (get_col (select_rows p df) c) \<subseteq> set (get_col df c)"
  by (auto simp add: get_col_def select_rows_def)

lemma filter_between_total:
  "\<not> repeated df c \<Longrightarrow> \<not> list_ex is_str (get_col df c) \<Longrightarrow>
   \<exists>d. filter_between c rng df = Inr d"
  by (simp add: filter_between_def)

lemma filter_between_columns: "filter_between c rng df = Inr d \<Longrightarrow> columns d = columns df"
  by (auto simp add: filter_between_def select_rows_def split: if_splits)

lemma filter_between_no_str:
  "filter_between c rng df = Inr d \<Longrightarrow> \<not> list_ex is_str (get_col df c') \<Longrightarrow>
   \<not> list_ex is_str (get_col d c')"
  using get_col_select_subset [of _ df c']
  by (auto simp add: filter_between_def list_ex_iff split: if_splits)

lemma filter_member_total:
  "(sel \<noteq> [] \<and> tc = Some t \<and> attr \<in> set (columns ex) \<longrightarrow> t \<in> set (columns ex)) \<Longrightarrow>
   tc = None \<or> tc = Some t \<Longrightarrow>
   \<exists>d. filter_member sel attr ex tc df = Inr d"
  by (auto simp add: filter_member_def Let_def)

text \<open>
  The filter engine on frames it accepts. When the labels \<open>year\<close> and \<open>metadata\<close> are not
  repeated in the movie frame, their columns hold no string and each exploded frame that
  a selection consults has a title column, the engine returns a frame with the columns of
  the movie frame and exactly the rows that pass every applicable filter, in their order.
\<close>

theorem filter_engine_exact:
  assumes "\<not> list_ex is_str (get_col dc ''year'')"
    and "\<not> list_ex is_str (get_col dc ''metadata'')"
    and "\<not> repeated dc ''year''" and "\<not> repeated dc ''metadata''"
    and "genre_filter cfg \<noteq> [] \<and> ''title'' \<in> set (columns dc) \<and> ''genre'' \<in> set (columns dg)
           \<longrightarrow> ''title'' \<in> set (columns dg)"
    and "cast_filter cfg \<noteq> [] \<and> ''title'' \<in> set (columns dc) \<and> ''cast'' \<in> set (columns dcast)
           \<longrightarrow> ''title'' \<in> set (columns dcast)"
  shows "\<exists>d. filter_engine dc dcast dg cfg = Inr d \<and> columns d = columns dc \<and>
           rows d = filter (row_passes dc dcast dg cfg) (rows dc)"
proof -
  from filter_between_total [OF assms(3) assms(1)] obtain d1 where
    1: "filter_between ''year'' (year_range cfg) dc = Inr d1" by blast
  from filter_between_columns [OF 1] assms(4) have "\<not> repeated d1 ''metadata''"
    by (simp add: repeated_def)
  from filter_between_total [OF this filter_between_no_str [OF 1 assms(2)]] obtain d2 where
    2: "filter_between ''metadata'' (meta_range cfg) d1 = Inr d2" by blast
  have t: "title_col dc = None \<or> title_col dc = Some ''title''" by (simp add: title_col_def)
  have "genre_filter cfg \<noteq> [] \<and> title_col dc = Some ''title'' \<and> ''genre'' \<in> set (columns dg)
      \<longrightarrow> ''title'' \<in> set (columns dg)"
    using assms(5) by (simp add: title_col_def split: if_splits)
  from filter_member_total [OF this t] obtain d3 where
    3: "filter_member (genre_filter cfg) ''genre'' dg (title_col dc) d2 = Inr d3" by blast
  have "cast_filter cfg \<noteq> [] \<and> title_col dc = Some ''title'' \<and> ''cast'' \<in> set (columns dcast)
      \<longrightarrow> ''title'' \<in> set (columns dcast)"
    using assms(6) by (simp add: title_col_def split: if_splits)
  from filter_member_total [OF this t] obtain d4 where
    4: "filter_member (cast_filter cfg) ''cast'' dcast (title_col dc) d3 = Inr d4" by blast
  have e: "filter_engine dc dcast dg cfg = Inr d4"
    by (simp add: filter_engine_def and_then_def 1 2 3 4)
  from filter_engine_rows [OF e] e show ?thesis by blast
qed

theorem filter_engine_exact_witness:
  "filter_engine ex_movies ex_cast ex_genres
     \<lparr>year_range = (2000, 2001), meta_range = (7, 9),
        genre_filter = [Str ''Drama''], cast_filter = [Str ''Y'']\<rparr>
   = Inr \<lparr>columns = [''title'', ''year'', ''metadata''],
          rows = [[Str ''A'', Num 2000, Num (15 / 2)]]\<rparr> \<and>
   filter (row_passes ex_movies ex_cast ex_genres
     \<lparr>year_range = (2000, 2001), meta_range = (7, 9),
        genre_filter = [Str ''Drama''], cast_filter = [Str ''Y'']\<rparr>) (rows ex_movies)
   = [[Str ''A'', Num 2000, Num (15 / 2)]]"
proof -
  let ?cfg = "\<lparr>year_range = (2000, 2001), meta_range = (7, 9),
        genre_filter = [Str ''Drama''], cast_filter = [Str ''Y'']\<rparr>"
  let ?r = "\<lparr>columns = [''title'', ''year'', ''metadata''],
          rows = [[Str ''A'', Num 2000, Num (15 / 2)]]\<rparr>"
  have h1: "\<not> list_ex is_str (get_col ex_movies ''year'')" by code_simp
  have h2: "\<not> list_ex is_str (get_col ex_movies ''metadata'')" by code_simp
  have h3: "genre_filter ?cfg \<noteq> [] \<and> ''title'' \<in> set (columns ex_movies)
      \<and> ''genre'' \<in> set (columns ex_genres) \<longrightarrow> ''title'' \<in> set (columns ex_genres)"
    by (simp add: ex_genres_def)
  have h4: "cast_filter ?cfg \<noteq> [] \<and> ''title'' \<in> set (columns ex_movies)
      \<and> ''cast'' \<in> set (columns ex_cast) \<longrightarrow> ''title'' \<in> set (columns ex_cast)"
    by (simp add: ex_cast_def)
  have h5: "\<not> repeated ex_movies ''year''" by code_simp
  have h6: "\<not> repeated ex_movies ''metadata''" by code_simp
  have e: "filter_engine ex_movies ex_cast ex_genres ?cfg = Inr ?r" by code_simp
  from filter_engine_exact [OF h1 h2 h5 h6 h3 h4] obtain d where
    "filter_engine ex_movies ex_cast ex_genres ?cfg = Inr d" and
    "rows d = filter (row_passes ex_movies ex_cast ex_genres ?cfg) (rows ex_movies)"
    by blast
  with e have "filter (row_passes ex_movies ex_cast ex_genres ?cfg) (rows ex_movies) = rows ?r"
    by simp
  with e show ?thesis by simp
qed

lemma set_nums: "set (nums vs) = {x. Num x \<in> set vs}"
proof (induction vs)
  case Nil
  then show ?case by simp
next
  case (Cons v vs)
  then show ?case by (cases v) auto
qed

lemma fold_min_Min: "fold min xs (x :: rat) = Min (set (x # xs))"
  by (simp only: Min.set_eq_fold)

lemma fold_max_Max: "fold max xs (x :: rat) = Max (set (x # xs))"
  by (simp only: Max.set_eq_fold)

lemma col_min_bound:
  assumes "nums vs \<noteq> []" and "Infty False \<notin> set vs"
  shows "\<exists>m. col_min vs = Num m \<and> Num m \<in> set vs \<and> (\<forall>x. Num x \<in> set vs \<longrightarrow> m \<le> x)"
proof -
  from assms obtain x xs where n: "nums vs = x # xs" by (cases "nums vs") auto
  let ?m = "Min (set (x # xs))"
  have "?m \<in> set (x # xs)" by (rule Min_in) simp_all
  then have 1: "Num ?m \<in> set vs" using set_nums [of vs] n by auto
  have 2: "\<forall>y. Num y \<in> set vs \<longrightarrow> ?m \<le> y"
  proof (intro allI impI)
    fix y assume "Num y \<in> set vs"
    then have "y \<in> set (x # xs)" using set_nums [of vs] n by auto
    then show "?m \<le> y" by (intro Min_le) simp_all
  qed
  have "col_min vs = Num ?m"
    using assms(2) by (simp only: col_min_def n list.case fold_min_Min if_False)
  with 1 2 show ?thesis by blast
qed

lemma col_max_bound:
  assumes "nums vs \<noteq> []" and "Infty True \<notin> set vs"
  shows "\<exists>m. col_max vs = Num m \<and> Num m \<in> set vs \<and> (\<forall>x. Num x \<in> set vs \<longrightarrow> x \<le> m)"
proof -
  from assms obtain x xs where n: "nums vs = x # xs" by (cases "nums vs") auto
  let ?m = "Max (set (x # xs))"
  have "?m \<in> set (x # xs)" by (rule Max_in) simp_all
  then have 1: "Num ?m \<in> set vs" using set_nums [of vs] n by auto
  have 2: "\<forall>y. Num y \<in> set vs \<longrightarrow> y \<le> ?m"
  proof (intro allI impI)
    fix y assume "Num y \<in> set vs"
    then have "y \<in> set (x # xs)" using set_nums [of vs] n by auto
    then show "y \<le> ?m" by (intro Max_ge) simp_all
  qed
  have "col_max vs = Num ?m"
    using assms(2) by (simp only: col_max_def n list.case fold_max_Max if_False)
  with 1 2 show ?thesis by blast
qed

lemma int_valued_NumD: "int_valued v \<Longrightarrow> \<exists>x. v = Num x \<and> x = of_int (trunc x)"
  by (cases v) (simp_all add: int_valued_def)

text \<open>
  The default year range. On a movie frame with rows and one column \<open>year\<close>, which holds
  whole numbers, the default range is defined and the year filter under it keeps the
  frame as it is.
\<close>

theorem default_year_range_keeps_all:
  assumes "''year'' \<in> set (columns dc)" and "rows dc \<noteq> []"
    and "list_all int_valued (get_col dc ''year'')"
    and "\<not> repeated dc ''year''"
  shows "\<exists>lo hi. default_year_range dc = Inr (lo, hi) \<and>
           filter_between ''year'' (lo, hi) dc = Inr dc"
proof -
  let ?vs = "get_col dc ''year''"
  have iv: "\<And>v. v \<in> set ?vs \<Longrightarrow> \<exists>x. v = Num x \<and> x = of_int (trunc x)"
    using assms(3) by (simp add: list_all_iff int_valued_NumD)
  from assms(2) obtain v where v: "v \<in> set ?vs" by (cases "rows dc") (auto simp add: get_col_def)
  with iv obtain x where "Num x \<in> set ?vs" by blast
  then have ne: "nums ?vs \<noteq> []" using set_nums [of ?vs] by auto
  have ni: "\<And>b. Infty b \<notin> set ?vs"
  proof
    fix b assume "Infty b \<in> set ?vs"
    from iv [OF this] show False by simp
  qed
  from col_min_bound [OF ne ni] obtain a where
    a: "col_min ?vs = Num a" "Num a \<in> set ?vs" "\<forall>x. Num x \<in> set ?vs \<longrightarrow> a \<le> x" by blast
  from col_max_bound [OF ne ni] obtain b where
    b: "col_max ?vs = Num b" "Num b \<in> set ?vs" "\<forall>x. Num x \<in> set ?vs \<longrightarrow> x \<le> b" by blast
  from iv [OF a(2)] have ai: "of_int (trunc a) = a" by simp
  from iv [OF b(2)] have bi: "of_int (trunc b) = b" by simp
  have d: "default_year_range dc = Inr (trunc a, trunc b)"
    using assms(1,4) by (simp add: default_year_range_def bounds_def py_int_def a(1) b(1))
  have "\<And>v. v \<in> set ?vs \<Longrightarrow> \<not> is_str v"
  proof -
    fix v assume "v \<in> set ?vs"
    from iv [OF this] show "\<not> is_str v" by auto
  qed
  then have ns: "\<not> list_ex is_str ?vs" by (auto simp add: list_ex_iff)
  have all: "\<And>r. r \<in> set (rows dc) \<Longrightarrow>
      between (trunc a) (trunc b) (cell_of (columns dc) ''year'' r)"
  proof -
    fix r assume "r \<in> set (rows dc)"
    then have m: "cell_of (columns dc) ''year'' r \<in> set ?vs" by (simp add: get_col_def)
    with iv obtain x where x: "cell_of (columns dc) ''year'' r = Num x" by blast
    with m a(3) b(3) have "a \<le> x" "x \<le> b" by auto
    with x show "between (trunc a) (trunc b) (cell_of (columns dc) ''year'' r)"
      by (simp add: between_def ai bi)
  qed
  then have "filter (\<lambda>r. between (trunc a) (trunc b) (cell_of (columns dc) ''year'' r)) (rows dc)
      = rows dc"
    by (simp add: filter_id_conv)
  then have "filter_between ''year'' (trunc a, trunc b) dc = Inr dc"
    using assms(1,4) ns by (simp add: filter_between_def select_rows_def)
  with d show ?thesis by blast
qed

theorem default_year_range_keeps_all_witness:
  "default_year_range ex_movies = Inr (2000, 2001) \<and>
   filter_between ''year'' (2000, 2001) ex_movies = Inr ex_movies"
proof -
  have h1: "''year'' \<in> set (columns ex_movies)" by (simp add: ex_movies_def)
  have h2: "rows ex_movies \<noteq> []" by (simp add: ex_movies_def)
  have h3: "list_all int_valued (get_col ex_movies ''year'')" by code_simp
  have h4: "\<not> repeated ex_movies ''year''" by code_simp
  have e: "default_year_range ex_movies = Inr (2000, 2001)" by code_simp
  from default_year_range_keeps_all [OF h1 h2 h3 h4] obtain lo hi where
    "default_year_range ex_movies = Inr (lo, hi)" and
    f: "filter_between ''year'' (lo, hi) ex_movies = Inr ex_movies"
    by blast
  with e have "lo = 2000" "hi = 2001" by simp_all
  with f e show ?thesis by simp
qed

text \<open>The fallback ranges when the column is absent.\<close>

theorem default_range_fallbacks:
  "(''year'' \<notin> set (columns dc) \<longrightarrow> default_year_range dc = Inr (1900, 2025)) \<and>
   (''metadata'' \<notin> set (columns dc) \<longrightarrow> default_meta_range dc = Inr (0, 100))"
  by (simp add: default_year_range_def default_meta_range_def)

theorem default_range_fallbacks_witness:
  "''year'' \<notin> set (columns ex_cast) \<and> ''metadata'' \<notin> set (columns ex_cast) \<and>
   default_year_range ex_cast = Inr (1900, 2025) \<and> default_meta_range ex_cast = Inr (0, 100)"
proof -
  have h: "''year'' \<notin> set (columns ex_cast)" "''metadata'' \<notin> set (columns ex_cast)"
    by (simp_all add: ex_cast_def)
  with default_range_fallbacks [of ex_cast] show ?thesis by blast
qed

lemma merge_year_columns_plain:
  "''year'' \<notin> set (columns left) \<Longrightarrow>
   columns (merge_year t left right) = columns left @ [''year'']"
  by (simp add: merge_year_def)

text \<open>
  The join when the genre frame has no year of its own. The joined frame has one column
  \<open>year\<close>, appended last and holding the movie frame's year; the rows with no matching
  movie are dropped; the yearly-trends tab hands this frame to the pivot, and so does the
  genre tab unless its bar chart (line 232) has raised.
\<close>

theorem year_attached_without_collision:
  assumes "''title'' \<in> set (columns dc)" and "''year'' \<in> set (columns dc)"
    and "columns dff = columns dc"
    and "rect dg" and "''genre'' \<in> set (columns dg)" and "''title'' \<in> set (columns dg)"
    and "''year'' \<notin> set (columns dg)" and "''year_x'' \<notin> set (columns dg)"
    and "''year_y'' \<notin> set (columns dg)"
  shows "\<exists>d. yearly_tab_year_genre dc dg dff = Some d \<and>
           genre_tab_year_genre vc dc dg dff =
             (if has_values (get_col (titles_in ''title'' dff dg) ''genre'')
              then Inr (Some d) else Inl ValueError) \<and>
           columns d = columns dg @ [''year''] \<and>
           rows d = filter (\<lambda>m. last m \<noteq> NaN)
                      (rows (merge_year ''title'' dg (project2 ''title'' ''year'' dc)))"
proof -
  let ?j = "merge_year ''title'' dg (project2 ''title'' ''year'' dc)"
  have c: "columns ?j = columns dg @ [''year'']"
    using assms(7) by (rule merge_year_columns_plain)
  have u: "unify_year ?j = ?j"
    using assms(8,9) by (simp add: unify_year_def c)
  define d where "d = select_rows (\<lambda>r. cell_of (columns ?j) ''year'' r \<noteq> NaN) ?j"
  have dn: "dropna_subset ''year'' ?j = Inr d" by (simp add: dropna_subset_def d_def c)
  have "\<And>m. m \<in> set (rows ?j) \<Longrightarrow> cell_of (columns ?j) ''year'' m = last m"
  proof -
    fix m assume "m \<in> set (rows ?j)"
    from merge_year_rows [OF this] obtain l y where l: "l \<in> set (rows dg)" and m: "m = l @ [y]"
      by blast
    from l assms(4) have "length l = length (columns dg)" by (simp add: rect_def list_all_iff)
    with assms(7) show "cell_of (columns ?j) ''year'' m = last m"
      by (simp add: c m cell_of_append_last)
  qed
  then have "rows d = filter (\<lambda>m. last m \<noteq> NaN) (rows ?j)"
    by (auto simp add: d_def select_rows_def intro!: filter_cong)
  moreover have "columns d = columns dg @ [''year'']" by (simp add: d_def select_rows_def c)
  moreover have "yearly_tab_year_genre dc dg dff = Some d"
    using assms(1-3,5,6) dn
    by (simp add: yearly_tab_year_genre_def title_col_def Let_def u c)
  moreover have "genre_tab_year_genre vc dc dg dff =
      (if has_values (get_col (titles_in ''title'' dff dg) ''genre'')
       then Inr (Some d) else Inl ValueError)"
    using assms(1-3,5,6) dn
    by (simp add: genre_tab_year_genre_def title_col_def Let_def u and_then_def
          px_bar_counts_def)
  ultimately show ?thesis by blast
qed

theorem year_attached_without_collision_witness:
  "rect ex_genres \<and>
   yearly_tab_year_genre ex_movies ex_genres ex_movies
   = Some \<lparr>columns = [''title'', ''genre'', ''year''],
       rows = [[Str ''A'', Str ''Drama'', Num 2000], [Str ''B'', Str ''Comedy'', Num 2001]]\<rparr> \<and>
   filter (\<lambda>m. last m \<noteq> NaN)
     (rows (merge_year ''title'' ex_genres (project2 ''title'' ''year'' ex_movies)))
   = [[Str ''A'', Str ''Drama'', Num 2000], [Str ''B'', Str ''Comedy'', Num 2001]]"
proof -
  let ?r = "\<lparr>columns = [''title'', ''genre'', ''year''],
       rows = [[Str ''A'', Str ''Drama'', Num 2000], [Str ''B'', Str ''Comedy'', Num 2001]]\<rparr>"
  have h1: "''title'' \<in> set (columns ex_movies)" by (simp add: ex_movies_def)
  have h2: "''year'' \<in> set (columns ex_movies)" by (simp add: ex_movies_def)
  have h3: "columns ex_movies = columns ex_movies" by simp
  have h4: "rect ex_genres" by code_simp
  have h5: "''genre'' \<in> set (columns ex_genres)" by (simp add: ex_genres_def)
  have h6: "''title'' \<in> set (columns ex_genres)" by (simp add: ex_genres_def)
  have h7: "''year'' \<notin> set (columns ex_genres)" by (simp add: ex_genres_def)
  have h8: "''year_x'' \<notin> set (columns ex_genres)" by (simp add: ex_genres_def)
  have h9: "''year_y'' \<notin> set (columns ex_genres)" by (simp add: ex_genres_def)
  have e: "yearly_tab_year_genre ex_movies ex_genres ex_movies = Some ?r" by code_simp
  from year_attached_without_collision [OF h1 h2 h3 h4 h5 h6 h7 h8 h9] obtain d where
    "yearly_tab_year_genre ex_movies ex_genres ex_movies = Some d" and
    r: "rows d = filter (\<lambda>m. last m \<noteq> NaN)
          (rows (merge_year ''title'' ex_genres (project2 ''title'' ''year'' ex_movies)))"
    by blast
  with e have "d = ?r" by simp
  with r have "filter (\<lambda>m. last m \<noteq> NaN)
      (rows (merge_year ''title'' ex_genres (project2 ''title'' ''year'' ex_movies))) = rows ?r"
    by simp
  with h4 e show ?thesis by simp
qed

end
